theory Spec2Isabelle
  imports Main
begin

section \<open>Units\<close>

text \<open>
  The Python classes \<open>Pikeman\<close>, \<open>Archer\<close> and \<open>Knight\<close> derive from \<open>Unit\<close> and
  only fix the constructor arguments. A unit object is a record of its attributes plus
  the tag of its class, which is what \<open>isinstance\<close> inspects in \<open>transform_unit\<close>.
  Python integers are unbounded, hence \<open>int\<close>.
\<close>

datatype unit_class = Pikeman_class | Archer_class | Knight_class

record Unit =
  cls :: unit_class
  unit_type :: string
  strength :: int
  years_of_life :: int
  training_cost :: int
  training_gain :: int

definition Pikeman :: Unit where
  "Pikeman = \<lparr>cls = Pikeman_class, unit_type = ''pikeman'', strength = 5,
     years_of_life = 0, training_cost = 10, training_gain = 3\<rparr>"

definition Archer :: Unit where
  "Archer = \<lparr>cls = Archer_class, unit_type = ''archer'', strength = 10,
     years_of_life = 0, training_cost = 20, training_gain = 7\<rparr>"

definition Knight :: Unit where
  "Knight = \<lparr>cls = Knight_class, unit_type = ''knight'', strength = 20,
     years_of_life = 0, training_cost = 30, training_gain = 10\<rparr>"

text \<open>\<open>Unit.train\<close>: \<open>self.strength += self.training_gain\<close>.\<close>

definition train :: "Unit \<Rightarrow> Unit" where
  "train u = u\<lparr>strength := strength u + training_gain u\<rparr>"

section \<open>Strings\<close>

text \<open>
  A \<open>char\<close> stands for a code point below 256. On that range \<open>str.lower\<close> adds 32 to
  the letters \<open>A\<close>..\<open>Z\<close> and to the Latin-1 capitals 192..222 other than the
  multiplication sign 215, and leaves every other character alone.
\<close>

definition lower_char :: "char \<Rightarrow> char" where
  "lower_char c =
     (let n = (of_char c :: nat)
      in if (65 \<le> n \<and> n \<le> 90) \<or> (192 \<le> n \<and> n \<le> 222 \<and> n \<noteq> 215)
         then char_of (n + 32) else c)"

definition lower :: "string \<Rightarrow> string" where
  "lower s = map lower_char s"

section \<open>Armies\<close>

text \<open>
  An entry of \<open>battle_record\<close> is a dictionary with the four fixed keys
  \<open>opponent\<close>, \<open>our_strength\<close>, \<open>enemy_strength\<close> and \<open>result\<close>.
\<close>

record battle =
  opponent :: string
  our_strength :: int
  enemy_strength :: int
  result :: string

text \<open>
  The roster is a list of unit values: every operation of the class puts freshly
  constructed units into a roster and none shares a unit between two positions or two
  armies, so a unit is identified by its army and its position.
\<close>

record Army =
  civilization :: string
  gold :: int
  units :: "Unit list"
  battle_record :: "battle list"

datatype error = ValueError string

text \<open>\<open>Army.__init__\<close>. The \<open>civilization\<close> attribute keeps the name as it was given.\<close>

definition Army_init :: "string \<Rightarrow> error + Army" where
  "Army_init name =
     (let civilization_lower = lower name
      in if civilization_lower = ''chinese'' then
           Inr \<lparr>civilization = name, gold = 1000,
                units = replicate 2 Pikeman @ replicate 25 Archer @ replicate 2 Knight,
                battle_record = []\<rparr>
         else if civilization_lower = ''english'' then
           Inr \<lparr>civilization = name, gold = 1000,
                units = replicate 10 Pikeman @ replicate 10 Archer @ replicate 10 Knight,
                battle_record = []\<rparr>
         else if civilization_lower = ''byzantine'' then
           Inr \<lparr>civilization = name, gold = 1000,
                units = replicate 5 Pikeman @ replicate 8 Archer @ replicate 15 Knight,
                battle_record = []\<rparr>
         else Inl (ValueError (''Unknown civilization: '' @ name
                     @ ''. Valid options: chinese, english, byzantine'')))"

text \<open>\<open>get_total_strength\<close>: \<open>sum(unit.strength for unit in self.units)\<close>.\<close>

definition get_total_strength :: "Army \<Rightarrow> int" where
  "get_total_strength a = sum_list (map strength (units a))"

text \<open>
  \<open>train_unit\<close>. The index is a Python integer; a negative one is rejected by the
  bounds check, so the list is only ever read inside its range.
\<close>

definition train_unit :: "int \<Rightarrow> Army \<Rightarrow> bool \<times> Army" where
  "train_unit unit_index a =
     (if unit_index < 0 \<or> unit_index \<ge> int (length (units a)) then (False, a)
      else
        let u = units a ! nat unit_index
        in if gold a \<ge> training_cost u then
             (True, a\<lparr>gold := gold a - training_cost u,
                      units := (units a)[nat unit_index := train u]\<rparr>)
           else (False, a))"

text \<open>
  \<open>transform_unit\<close>. The new unit is built before the gold check and thrown away when
  the check fails.
\<close>

definition transform_unit :: "int \<Rightarrow> string \<Rightarrow> Army \<Rightarrow> bool \<times> Army" where
  "transform_unit unit_index new_type a =
     (if unit_index < 0 \<or> unit_index \<ge> int (length (units a)) then (False, a)
      else
        let current_unit = units a ! nat unit_index;
            new_type_lower = lower new_type;
            plan =
              (if cls current_unit = Pikeman_class \<and> new_type_lower = ''archer'' then
                 Some (30 :: int,
                       Archer\<lparr>years_of_life := years_of_life current_unit,
                              strength := 10 + (strength current_unit - 5)\<rparr>)
               else if cls current_unit = Archer_class \<and> new_type_lower = ''knight'' then
                 Some (40,
                       Knight\<lparr>years_of_life := years_of_life current_unit,
                              strength := 20 + (strength current_unit - 10)\<rparr>)
               else None)
        in case plan of
             None \<Rightarrow> (False, a)
           | Some (cost, new_unit) \<Rightarrow>
               if gold a \<ge> cost then
                 (True, a\<lparr>gold := gold a - cost,
                          units := (units a)[nat unit_index := new_unit]\<rparr>)
               else (False, a))"

section \<open>Removing the strongest units\<close>

text \<open>
  \<open>max(self.units, key=lambda unit: unit.strength)\<close> keeps the running maximum and
  replaces it only by a strictly stronger unit, so it returns the first unit of maximal
  strength; on an empty list it raises \<open>ValueError\<close>.
\<close>

text \<open>The update of the running maximum inside \<open>max\<close>.\<close>

abbreviation stronger :: "Unit \<Rightarrow> Unit \<Rightarrow> Unit" where
  "stronger \<equiv> (\<lambda>best x. if strength x > strength best then x else best)"

definition py_max :: "Unit list \<Rightarrow> error + Unit" where
  "py_max us =
     (case us of
        [] \<Rightarrow> Inl (ValueError ''max() arg is an empty sequence'')
      | u # rest \<Rightarrow>
          Inr (foldl stronger u rest))"

text \<open>
  \<open>list.remove(x)\<close> deletes the first occurrence of \<open>x\<close> and raises \<open>ValueError\<close> when
  there is none.
\<close>

definition list_remove :: "Unit \<Rightarrow> Unit list \<Rightarrow> error + Unit list" where
  "list_remove x us =
     (if x \<in> set us then Inr (remove1 x us)
      else Inl (ValueError ''list.remove(x): x not in list''))"

text \<open>The body of the \<open>for _ in range(units_to_remove)\<close> loop, \<open>k\<close> rounds of it.\<close>

fun remove_loop :: "nat \<Rightarrow> Unit list \<Rightarrow> error + Unit list" where
  "remove_loop 0 us = Inr us"
| "remove_loop (Suc k) us =
     (case py_max us of
        Inl e \<Rightarrow> Inl e
      | Inr strongest_unit \<Rightarrow>
          (case list_remove strongest_unit us of
             Inl e \<Rightarrow> Inl e
           | Inr us' \<Rightarrow> remove_loop k us'))"

text \<open>\<open>remove_strongest_units\<close>; \<open>range\<close> of a negative number is empty.\<close>

definition remove_strongest_units :: "int \<Rightarrow> Army \<Rightarrow> error + Army" where
  "remove_strongest_units count a =
     (if units a = [] then Inr a
      else
        let units_to_remove = min count (int (length (units a)))
        in case remove_loop (nat units_to_remove) (units a) of
             Inl e \<Rightarrow> Inl e
           | Inr us \<Rightarrow> Inr (a\<lparr>units := us\<rparr>))"

section \<open>Battles\<close>

text \<open>
  \<open>attack\<close> mutates two army objects that it receives by reference, and nothing stops
  a caller from passing the same object twice. Armies therefore live in a store indexed
  by references, and every statement of \<open>attack\<close> reads and writes the store in the
  order of the source.
\<close>

type_synonym ref = nat
type_synonym store = "ref \<Rightarrow> Army"

text \<open>\<open>_age_all_units\<close>.\<close>

definition age_unit :: "Unit \<Rightarrow> Unit" where
  "age_unit u = u\<lparr>years_of_life := years_of_life u + 1\<rparr>"

definition age_all_units :: "Army \<Rightarrow> Army" where
  "age_all_units a = a\<lparr>units := map age_unit (units a)\<rparr>"

text \<open>
  The three branches of the comparison: the gold transfer, the removals, and the value
  stored under \<open>'result'\<close>.
\<close>

definition battle_outcome :: "ref \<Rightarrow> ref \<Rightarrow> int \<Rightarrow> int \<Rightarrow> store \<Rightarrow> error + (string \<times> store)" where
  "battle_outcome self other our enemy h =
     (if our > enemy then
        (let h1 = h(self := (h self)\<lparr>gold := gold (h self) + 100\<rparr>)
         in case remove_strongest_units 2 (h1 other) of
              Inl e \<Rightarrow> Inl e
            | Inr a \<Rightarrow> Inr (''victory'', h1(other := a)))
      else if enemy > our then
        (let h1 = h(other := (h other)\<lparr>gold := gold (h other) + 100\<rparr>)
         in case remove_strongest_units 2 (h1 self) of
              Inl e \<Rightarrow> Inl e
            | Inr a \<Rightarrow> Inr (''defeat'', h1(self := a)))
      else
        (case remove_strongest_units 1 (h self) of
           Inl e \<Rightarrow> Inl e
         | Inr a \<Rightarrow>
             (let h1 = h(self := a)
              in case remove_strongest_units 1 (h1 other) of
                   Inl e \<Rightarrow> Inl e
                 | Inr b \<Rightarrow> Inr (''draw'', h1(other := b)))))"

definition mirrored :: "string \<Rightarrow> string" where
  "mirrored r = (if r = ''victory'' then ''defeat''
                 else if r = ''defeat'' then ''victory'' else ''draw'')"

definition append_battle :: "battle \<Rightarrow> Army \<Rightarrow> Army" where
  "append_battle b a = a\<lparr>battle_record := battle_record a @ [b]\<rparr>"

definition attack :: "ref \<Rightarrow> ref \<Rightarrow> store \<Rightarrow> error + (string \<times> store)" where
  "attack self other h =
     (if units (h self) = [] then Inr (''no_units'', h)
      else if units (h other) = [] then Inr (''no_target'', h)
      else
        let our = get_total_strength (h self);
            enemy = get_total_strength (h other);
            opp = civilization (h other)
        in case battle_outcome self other our enemy h of
             Inl e \<Rightarrow> Inl e
           | Inr (res, h2) \<Rightarrow>
               let h3 = h2(self := age_all_units (h2 self));
                   h4 = h3(other := age_all_units (h3 other));
                   h5 = h4(self := append_battle
                          \<lparr>opponent = opp, our_strength = our,
                           enemy_strength = enemy, result = res\<rparr> (h4 self));
                   h6 = h5(other := append_battle
                          \<lparr>opponent = civilization (h5 self), our_strength = enemy,
                           enemy_strength = our, result = mirrored res\<rparr> (h5 other))
               in Inr (res, h6))"

section \<open>The removal policy in the specification's words\<close>

text \<open>
  One step removes the first unit in roster order whose strength is the maximum of the
  roster; \<open>n\<close> steps are taken, or fewer when the roster runs out first.
\<close>

fun remove_first_with :: "int \<Rightarrow> Unit list \<Rightarrow> Unit list" where
  "remove_first_with m [] = []"
| "remove_first_with m (u # us) =
     (if strength u = m then us else u # remove_first_with m us)"

definition remove_strongest_step :: "Unit list \<Rightarrow> Unit list" where
  "remove_strongest_step us = remove_first_with (Max (set (map strength us))) us"

fun remove_strongest_spec :: "nat \<Rightarrow> Unit list \<Rightarrow> Unit list" where
  "remove_strongest_spec 0 us = us"
| "remove_strongest_spec (Suc n) us =
     (if us = [] then [] else remove_strongest_spec n (remove_strongest_step us))"

section \<open>Sequences of operations\<close>

text \<open>
  A caller holds references to armies and applies the three mutating methods to them in
  any order. An exception would end the sequence.
\<close>

datatype command =
  Train ref int
| Transform ref int string
| Attack ref ref

fun step :: "command \<Rightarrow> store \<Rightarrow> error + store" where
  "step (Train r i) h = Inr (h(r := snd (train_unit i (h r))))"
| "step (Transform r i t) h = Inr (h(r := snd (transform_unit i t (h r))))"
| "step (Attack r r') h =
     (case attack r r' h of Inl e \<Rightarrow> Inl e | Inr (res, h') \<Rightarrow> Inr h')"

fun run :: "command list \<Rightarrow> store \<Rightarrow> error + store" where
  "run [] h = Inr h"
| "run (c # cs) h = (case step c h of Inl e \<Rightarrow> Inl e | Inr h' \<Rightarrow> run cs h')"

section \<open>Unit objects\<close>

text \<open>
  A roster of values says nothing about a unit once it has left the roster. To follow
  every unit object through a battle, removed or not, the units live in a heap of their
  own: a roster is the list of references that \<open>self.units\<close> holds, and a world is the
  store of armies together with the heap of units. \<open>attack_obj\<close> is \<open>attack\<close> read
  statement by statement over these references.
\<close>

type_synonym uref = nat

record Army_obj =
  obj_civilization :: string
  obj_gold :: int
  obj_units :: "uref list"
  obj_battle_record :: "battle list"

record world =
  armies :: "ref \<Rightarrow> Army_obj"
  objects :: "uref \<Rightarrow> Unit"

definition get_total_strength_obj :: "(uref \<Rightarrow> Unit) \<Rightarrow> Army_obj \<Rightarrow> int" where
  "get_total_strength_obj H a = sum_list (map (\<lambda>u. strength (H u)) (obj_units a))"

text \<open>\<open>max\<close> with the key \<open>unit.strength\<close>, read through the heap.\<close>

abbreviation stronger_obj :: "(uref \<Rightarrow> Unit) \<Rightarrow> uref \<Rightarrow> uref \<Rightarrow> uref" where
  "stronger_obj H \<equiv> (\<lambda>best x. if strength (H x) > strength (H best) then x else best)"

definition py_max_obj :: "(uref \<Rightarrow> Unit) \<Rightarrow> uref list \<Rightarrow> error + uref" where
  "py_max_obj H us =
     (case us of
        [] \<Rightarrow> Inl (ValueError ''max() arg is an empty sequence'')
      | u # rest \<Rightarrow> Inr (foldl (stronger_obj H) u rest))"

text \<open>
  \<open>Unit\<close> defines no \<open>__eq__\<close>, so \<open>list.remove\<close> compares by identity: it deletes
  the first occurrence of the reference.
\<close>

definition list_remove_obj :: "uref \<Rightarrow> uref list \<Rightarrow> error + uref list" where
  "list_remove_obj x us =
     (if x \<in> set us then Inr (remove1 x us)
      else Inl (ValueError ''list.remove(x): x not in list''))"

fun remove_loop_obj :: "(uref \<Rightarrow> Unit) \<Rightarrow> nat \<Rightarrow> uref list \<Rightarrow> error + uref list" where
  "remove_loop_obj H 0 us = Inr us"
| "remove_loop_obj H (Suc k) us =
     (case py_max_obj H us of
        Inl e \<Rightarrow> Inl e
      | Inr strongest_unit \<Rightarrow>
          (case list_remove_obj strongest_unit us of
             Inl e \<Rightarrow> Inl e
           | Inr us' \<Rightarrow> remove_loop_obj H k us'))"

definition remove_strongest_units_obj ::
  "(uref \<Rightarrow> Unit) \<Rightarrow> int \<Rightarrow> Army_obj \<Rightarrow> error + Army_obj" where
  "remove_strongest_units_obj H count a =
     (if obj_units a = [] then Inr a
      else
        let units_to_remove = min count (int (length (obj_units a)))
        in case remove_loop_obj H (nat units_to_remove) (obj_units a) of
             Inl e \<Rightarrow> Inl e
           | Inr us \<Rightarrow> Inr (a\<lparr>obj_units := us\<rparr>))"

text \<open>
  \<open>_age_all_units\<close>: \<open>for unit in self.units: unit.years_of_life += 1\<close>, one heap
  update for each reference of the roster, in roster order.
\<close>

definition age_all_units_obj :: "Army_obj \<Rightarrow> (uref \<Rightarrow> Unit) \<Rightarrow> (uref \<Rightarrow> Unit)" where
  "age_all_units_obj a H =
     foldl (\<lambda>H' u. H'(u := (H' u)\<lparr>years_of_life := years_of_life (H' u) + 1\<rparr>)) H (obj_units a)"

definition battle_outcome_obj ::
  "ref \<Rightarrow> ref \<Rightarrow> int \<Rightarrow> int \<Rightarrow> (uref \<Rightarrow> Unit) \<Rightarrow> (ref \<Rightarrow> Army_obj)
     \<Rightarrow> error + (string \<times> (ref \<Rightarrow> Army_obj))" where
  "battle_outcome_obj self other our enemy H A =
     (if our > enemy then
        (let A1 = A(self := (A self)\<lparr>obj_gold := obj_gold (A self) + 100\<rparr>)
         in case remove_strongest_units_obj H 2 (A1 other) of
              Inl e \<Rightarrow> Inl e
            | Inr a \<Rightarrow> Inr (''victory'', A1(other := a)))
      else if enemy > our then
        (let A1 = A(other := (A other)\<lparr>obj_gold := obj_gold (A other) + 100\<rparr>)
         in case remove_strongest_units_obj H 2 (A1 self) of
              Inl e \<Rightarrow> Inl e
            | Inr a \<Rightarrow> Inr (''defeat'', A1(self := a)))
      else
        (case remove_strongest_units_obj H 1 (A self) of
           Inl e \<Rightarrow> Inl e
         | Inr a \<Rightarrow>
             (let A1 = A(self := a)
              in case remove_strongest_units_obj H 1 (A1 other) of
                   Inl e \<Rightarrow> Inl e
                 | Inr b \<Rightarrow> Inr (''draw'', A1(other := b)))))"

definition append_battle_obj :: "battle \<Rightarrow> Army_obj \<Rightarrow> Army_obj" where
  "append_battle_obj b a = a\<lparr>obj_battle_record := obj_battle_record a @ [b]\<rparr>"

definition attack_obj :: "ref \<Rightarrow> ref \<Rightarrow> world \<Rightarrow> error + (string \<times> world)" where
  "attack_obj self other w =
     (if obj_units (armies w self) = [] then Inr (''no_units'', w)
      else if obj_units (armies w other) = [] then Inr (''no_target'', w)
      else
        let our = get_total_strength_obj (objects w) (armies w self);
            enemy = get_total_strength_obj (objects w) (armies w other);
            opp = obj_civilization (armies w other)
        in case battle_outcome_obj self other our enemy (objects w) (armies w) of
             Inl e \<Rightarrow> Inl e
           | Inr (res, A2) \<Rightarrow>
               let H3 = age_all_units_obj (A2 self) (objects w);
                   H4 = age_all_units_obj (A2 other) H3;
                   A5 = A2(self := append_battle_obj
                          \<lparr>opponent = opp, our_strength = our,
                           enemy_strength = enemy, result = res\<rparr> (A2 self));
                   A6 = A5(other := append_battle_obj
                          \<lparr>opponent = obj_civilization (A5 self), our_strength = enemy,
                           enemy_strength = our, result = mirrored res\<rparr> (A5 other))
               in Inr (res, \<lparr>armies = A6, objects = H4\<rparr>))"

text \<open>
  An army owns its units exclusively: no roster holds a unit twice and two different
  armies share none. Construction fills a roster with new units, \<open>transform_unit\<close> puts a
  new unit in the place of an old one, and no method adds an existing unit to a roster.
\<close>

definition exclusive_units :: "ref \<Rightarrow> ref \<Rightarrow> world \<Rightarrow> bool" where
  "exclusive_units self other w \<longleftrightarrow>
     distinct (obj_units (armies w self)) \<and> distinct (obj_units (armies w other)) \<and>
     (self \<noteq> other \<longrightarrow>
        set (obj_units (armies w self)) \<inter> set (obj_units (armies w other)) = {})"

text \<open>The army and the store of values that a world stands for.\<close>

definition abs_army :: "(uref \<Rightarrow> Unit) \<Rightarrow> Army_obj \<Rightarrow> Army" where
  "abs_army H a = \<lparr>civilization = obj_civilization a, gold = obj_gold a,
     units = map H (obj_units a), battle_record = obj_battle_record a\<rparr>"

definition abs_store :: "world \<Rightarrow> store" where
  "abs_store w = (\<lambda>r. abs_army (objects w) (armies w r))"

section \<open>Statements about a battle\<close>

text \<open>
  The outcome of a battle as seen by the side whose strength comes first.
\<close>

definition verdict_of :: "int \<Rightarrow> int \<Rightarrow> string" where
  "verdict_of our enemy =
     (if our > enemy then ''victory'' else if enemy > our then ''defeat'' else ''draw'')"

text \<open>
  Gold and losses: the stronger side gains 100 gold and the weaker side loses its two
  strongest units; on equal strength no gold moves and each side loses its single
  strongest unit. Rosters are compared after the aging that ends every battle.
\<close>

definition attack_outcome_claim :: "ref \<Rightarrow> ref \<Rightarrow> store \<Rightarrow> bool" where
  "attack_outcome_claim self other h =
     (\<exists>res h'. attack self other h = Inr (res, h') \<and>
        (let our = get_total_strength (h self); enemy = get_total_strength (h other)
         in if our > enemy then
              gold (h' self) = gold (h self) + 100 \<and>
              units (h' other) = map age_unit (remove_strongest_spec 2 (units (h other)))
            else if enemy > our then
              gold (h' other) = gold (h other) + 100 \<and>
              units (h' self) = map age_unit (remove_strongest_spec 2 (units (h self)))
            else
              gold (h' self) = gold (h self) \<and> gold (h' other) = gold (h other) \<and>
              units (h' self) = map age_unit (remove_strongest_spec 1 (units (h self))) \<and>
              units (h' other) = map age_unit (remove_strongest_spec 1 (units (h other)))))"

text \<open>
  Aging, over unit objects: the units left in the two rosters were in them before the
  battle, each of them has \<open>years_of_life\<close> one more than before the battle and is
  otherwise as it was, and every unit object outside the final rosters, so each unit the
  battle removed, is exactly as it was before the battle.
\<close>

definition attack_aging_claim :: "ref \<Rightarrow> ref \<Rightarrow> world \<Rightarrow> bool" where
  "attack_aging_claim self other w =
     (\<exists>res w'. attack_obj self other w = Inr (res, w') \<and>
        set (obj_units (armies w' self)) \<subseteq> set (obj_units (armies w self)) \<and>
        set (obj_units (armies w' other)) \<subseteq> set (obj_units (armies w other)) \<and>
        (\<forall>u \<in> set (obj_units (armies w' self)) \<union> set (obj_units (armies w' other)).
           objects w' u = (objects w u)\<lparr>years_of_life := years_of_life (objects w u) + 1\<rparr>) \<and>
        (\<forall>u. u \<notin> set (obj_units (armies w' self)) \<union> set (obj_units (armies w' other))
           \<longrightarrow> objects w' u = objects w u))"

text \<open>
  History: each army's history grows by exactly one entry, built from the strengths
  before the battle; the opponent's entry swaps the strengths and inverts the outcome.
\<close>

definition attack_history_claim :: "ref \<Rightarrow> ref \<Rightarrow> store \<Rightarrow> bool" where
  "attack_history_claim self other h =
     (\<exists>res res' h'. attack self other h = Inr (res, h') \<and>
        (let our = get_total_strength (h self); enemy = get_total_strength (h other)
         in res = verdict_of our enemy \<and>
            ((res = ''victory'' \<and> res' = ''defeat'') \<or>
             (res = ''defeat'' \<and> res' = ''victory'') \<or>
             (res = ''draw'' \<and> res' = ''draw'')) \<and>
            battle_record (h' self) = battle_record (h self) @
              [\<lparr>opponent = civilization (h other), our_strength = our,
                enemy_strength = enemy, result = res\<rparr>] \<and>
            battle_record (h' other) = battle_record (h other) @
              [\<lparr>opponent = civilization (h self), our_strength = enemy,
                enemy_strength = our, result = res'\<rparr>]))"

section \<open>Concrete armies\<close>

definition chinese_army :: Army where
  "chinese_army = \<lparr>civilization = ''chinese'', gold = 1000,
     units = replicate 2 Pikeman @ replicate 25 Archer @ replicate 2 Knight,
     battle_record = []\<rparr>"

definition english_army :: Army where
  "english_army = \<lparr>civilization = ''english'', gold = 1000,
     units = replicate 10 Pikeman @ replicate 10 Archer @ replicate 10 Knight,
     battle_record = []\<rparr>"

text \<open>Reference 0 holds a Chinese army, every other reference an English one.\<close>

definition two_armies :: store where
  "two_armies = (\<lambda>r. if r = 0 then chinese_army else english_army)"

text \<open>The Chinese army after its first pikeman has been trained twice.\<close>

definition trained_twice :: Army where
  "trained_twice = snd (train_unit 0 (snd (train_unit 0 chinese_army)))"

text \<open>The Chinese army with 5 gold left.\<close>

definition poor_army :: Army where
  "poor_army = chinese_army\<lparr>gold := 5\<rparr>"

text \<open>Reference 0 holds an army that has lost all its units.\<close>

definition routed_store :: store where
  "routed_store = (\<lambda>r. if r = 0 then chinese_army\<lparr>units := []\<rparr> else english_army)"

definition campaign :: "command list" where
  "campaign = [Train 0 0, Train 0 0, Transform 0 0 ''archer'', Attack 0 1, Attack 1 0,
     Attack 0 0, Train 1 3, Transform 0 0 ''knight'']"

text \<open>
  The same two armies as objects: the Chinese army holds the unit objects 0 to 28, the
  English army the unit objects 29 to 58, all as their constructors made them; every
  further reference holds an army without units.
\<close>

definition chinese_obj :: Army_obj where
  "chinese_obj = \<lparr>obj_civilization = ''chinese'', obj_gold = 1000,
     obj_units = [0..<29], obj_battle_record = []\<rparr>"

definition english_obj :: Army_obj where
  "english_obj = \<lparr>obj_civilization = ''english'', obj_gold = 1000,
     obj_units = [29..<59], obj_battle_record = []\<rparr>"

definition routed_obj :: Army_obj where
  "routed_obj = \<lparr>obj_civilization = ''byzantine'', obj_gold = 1000,
     obj_units = [], obj_battle_record = []\<rparr>"

definition fresh_units :: "uref \<Rightarrow> Unit" where
  "fresh_units u =
     (if u < 2 then Pikeman else if u < 27 then Archer else if u < 29 then Knight
      else if u < 39 then Pikeman else if u < 49 then Archer else Knight)"

definition two_worlds :: world where
  "two_worlds =
     \<lparr>armies = (\<lambda>r. if r = 0 then chinese_obj else if r = 1 then english_obj else routed_obj),
      objects = fresh_units\<rparr>"

definition short_campaign :: "command list" where
  "short_campaign = [Train 0 0, Attack 0 1, Transform 1 0 ''archer'']"

section \<open>The removal loop meets the policy\<close>

lemma Max_strength_snoc:
  "Max (set (map strength (u # xs @ [x]))) = max (strength x) (Max (set (map strength (u # xs))))"
proof -
  have "set (map strength (u # xs @ [x])) = insert (strength x) (set (map strength (u # xs)))"
    by auto
  then show ?thesis
    by (simp only: Max_insert [OF finite_set] list.simps(9) set_empty list.distinct not_False_eq_True)
qed

lemma foldl_stronger_strength:
  "strength (foldl stronger u rest) = Max (set (map strength (u # rest)))"
proof (induction rest rule: rev_induct)
  case Nil
  show ?case by simp
next
  case (snoc x xs)
  have "strength (foldl stronger u (xs @ [x])) = max (strength x) (strength (foldl stronger u xs))"
    by (simp add: max_def)
  also have "\<dots> = max (strength x) (Max (set (map strength (u # xs))))"
    by (simp only: snoc.IH)
  also have "\<dots> = Max (set (map strength (u # xs @ [x])))"
    by (simp only: Max_strength_snoc)
  finally show ?case .
qed

lemma find_snoc:
  "find P (xs @ [x]) = (case find P xs of None \<Rightarrow> (if P x then Some x else None) | Some y \<Rightarrow> Some y)"
  by (induction xs) auto

lemma foldl_stronger_find:
  "find (\<lambda>x. strength x = Max (set (map strength (u # rest)))) (u # rest) = Some (foldl stronger u rest)"
proof (induction rest rule: rev_induct)
  case Nil
  show ?case by simp
next
  case (snoc x xs)
  define M where "M = Max (set (map strength (u # xs)))"
  define m where "m = foldl stronger u xs"
  have sm: "strength m = M" unfolding m_def M_def by (rule foldl_stronger_strength)
  have le: "\<forall>y \<in> set (u # xs). strength y \<le> M" unfolding M_def by simp
  have IH: "find (\<lambda>y. strength y = M) (u # xs) = Some m"
    unfolding M_def m_def by (rule snoc.IH)
  have M': "Max (set (map strength (u # xs @ [x]))) = max (strength x) M"
    unfolding M_def by (rule Max_strength_snoc)
  have step: "foldl stronger u (xs @ [x]) = (if strength m < strength x then x else m)"
    by (simp add: m_def)
  show ?case
  proof (cases "strength x > M")
    case True
    then have none: "find (\<lambda>y. strength y = strength x) (u # xs) = None"
      using le by (fastforce simp: find_None_iff)
    have mx: "max (strength x) M = strength x" using True by simp
    have "find (\<lambda>y. strength y = strength x) ((u # xs) @ [x]) = Some x"
      by (simp only: find_snoc none) simp
    then show ?thesis
      unfolding M' mx step using True sm by simp
  next
    case False
    then have mx: "max (strength x) M = M" by simp
    have "find (\<lambda>y. strength y = M) ((u # xs) @ [x]) = Some m"
      by (simp only: find_snoc IH) simp
    then show ?thesis
      unfolding M' mx step using False sm by simp
  qed
qed

lemma find_holds: "find P us = Some y \<Longrightarrow> P y \<and> y \<in> set us"
  by (induction us) (auto split: if_splits)

lemma remove1_find:
  "find (\<lambda>x. strength x = m) us = Some y \<Longrightarrow> remove1 y us = remove_first_with m us"
proof (induction us)
  case Nil
  then show ?case by simp
next
  case (Cons a us)
  from Cons.prems have "strength y = m" using find_holds [of "\<lambda>x. strength x = m"] by blast
  with Cons show ?case by (auto split: if_splits)
qed

lemma py_max_nonempty:
  assumes "us \<noteq> []"
  shows "\<exists>m. py_max us = Inr m \<and> m \<in> set us \<and> remove1 m us = remove_strongest_step us"
proof -
  from assms obtain u rest where us: "us = u # rest" by (cases us) auto
  let ?m = "foldl stronger u rest"
  have f: "find (\<lambda>x. strength x = Max (set (map strength us))) us = Some ?m"
    unfolding us by (rule foldl_stronger_find)
  have "py_max us = Inr ?m" by (simp add: py_max_def us)
  moreover have "?m \<in> set us" using find_holds [OF f] by simp
  moreover have "remove1 ?m us = remove_strongest_step us"
    unfolding remove_strongest_step_def by (rule remove1_find [OF f])
  ultimately show ?thesis by blast
qed

lemma remove_first_with_length:
  "m \<in> set (map strength us) \<Longrightarrow> Suc (length (remove_first_with m us)) = length us"
  by (induction us) auto

lemma remove_strongest_step_length:
  "us \<noteq> [] \<Longrightarrow> Suc (length (remove_strongest_step us)) = length us"
  unfolding remove_strongest_step_def
  by (rule remove_first_with_length) (metis Max_in finite_set set_empty map_is_Nil_conv)

lemma remove_loop_spec:
  "k \<le> length us \<Longrightarrow> remove_loop k us = Inr (remove_strongest_spec k us)"
proof (induction k arbitrary: us)
  case 0
  show ?case by simp
next
  case (Suc k)
  then have ne: "us \<noteq> []" by auto
  from py_max_nonempty [OF ne] obtain m where
    m: "py_max us = Inr m" "m \<in> set us" "remove1 m us = remove_strongest_step us" by blast
  have "k \<le> length (remove_strongest_step us)"
    using remove_strongest_step_length [OF ne] Suc.prems by simp
  from Suc.IH [OF this] show ?case
    using m ne by (simp add: list_remove_def)
qed

lemma remove_strongest_spec_Nil: "remove_strongest_spec n [] = []"
  by (cases n) auto

lemma remove_strongest_spec_min:
  "remove_strongest_spec (min n (length us)) us = remove_strongest_spec n us"
proof (induction n arbitrary: us)
  case 0
  show ?case by simp
next
  case (Suc n)
  show ?case
  proof (cases us)
    case Nil
    then show ?thesis by simp
  next
    case (Cons a list)
    then have ne: "us \<noteq> []" by simp
    have len: "length (remove_strongest_step us) = length list"
      using remove_strongest_step_length [OF ne] Cons by simp
    have "min (Suc n) (length us) = Suc (min n (length list))" using Cons by simp
    then show ?thesis using Suc.IH [of "remove_strongest_step us"] ne len by simp
  qed
qed

lemma remove_strongest_units_spec:
  "remove_strongest_units n a = Inr (a\<lparr>units := remove_strongest_spec (nat n) (units a)\<rparr>)"
proof (cases "units a = []")
  case True
  then show ?thesis by (simp add: remove_strongest_units_def remove_strongest_spec_Nil)
next
  case False
  have eq: "nat (min n (int (length (units a)))) = min (nat n) (length (units a))" by simp
  have "remove_loop (min (nat n) (length (units a))) (units a)
        = Inr (remove_strongest_spec (min (nat n) (length (units a))) (units a))"
    by (rule remove_loop_spec) simp
  then show ?thesis
    using False by (simp add: remove_strongest_units_def eq remove_strongest_spec_min Let_def)
qed

lemma remove_strongest_spec_length:
  "length (remove_strongest_spec n us) = length us - n"
proof (induction n arbitrary: us)
  case 0
  show ?case by simp
next
  case (Suc n)
  show ?case
  proof (cases "us = []")
    case True
    then show ?thesis by simp
  next
    case False
    from remove_strongest_step_length [OF False] Suc.IH [of "remove_strongest_step us"] False
    show ?thesis by simp
  qed
qed

text \<open>
  A step of the policy deletes the unit at the least index whose strength is the
  maximum: every unit before it is strictly weaker and no unit is stronger.
\<close>

lemma remove_first_with_index:
  "m \<in> set (map strength us) \<Longrightarrow>
   \<exists>i<length us. strength (us ! i) = m \<and> (\<forall>j<i. strength (us ! j) \<noteq> m) \<and>
      remove_first_with m us = take i us @ drop (Suc i) us"
proof (induction us)
  case Nil
  then show ?case by simp
next
  case (Cons u us)
  show ?case
  proof (cases "strength u = m")
    case True
    then have "strength ((u # us) ! 0) = m \<and> (\<forall>j<0. strength ((u # us) ! j) \<noteq> m) \<and>
      remove_first_with m (u # us) = take 0 (u # us) @ drop (Suc 0) (u # us)" by simp
    then show ?thesis by blast
  next
    case False
    with Cons.prems have "m \<in> set (map strength us)" by auto
    from Cons.IH [OF this] obtain i where
      i: "i < length us" "strength (us ! i) = m" "\<forall>j<i. strength (us ! j) \<noteq> m"
         "remove_first_with m us = take i us @ drop (Suc i) us" by blast
    have "\<forall>j<Suc i. strength ((u # us) ! j) \<noteq> m"
    proof (intro allI impI)
      fix j assume "j < Suc i"
      then show "strength ((u # us) ! j) \<noteq> m" using False i(3) by (cases j) auto
    qed
    with i False have "Suc i < length (u # us) \<and> strength ((u # us) ! Suc i) = m \<and>
      (\<forall>j<Suc i. strength ((u # us) ! j) \<noteq> m) \<and>
      remove_first_with m (u # us) = take (Suc i) (u # us) @ drop (Suc (Suc i)) (u # us)"
      by simp
    then show ?thesis by blast
  qed
qed

lemma remove_strongest_step_first_max:
  assumes "us \<noteq> []"
  shows "\<exists>i<length us. (\<forall>j<length us. strength (us ! j) \<le> strength (us ! i)) \<and>
      (\<forall>j<i. strength (us ! j) < strength (us ! i)) \<and>
      remove_strongest_step us = take i us @ drop (Suc i) us"
proof -
  define M where "M = Max (set (map strength us))"
  have fin: "finite (set (map strength us))" by simp
  have ne: "set (map strength us) \<noteq> {}" using assms by simp
  have Min: "M \<in> set (map strength us)" unfolding M_def by (rule Max_in [OF fin ne])
  have le: "\<forall>j<length us. strength (us ! j) \<le> M"
    unfolding M_def by (auto intro!: Max_ge)
  from remove_first_with_index [OF Min] obtain i where
    i: "i < length us" "strength (us ! i) = M" "\<forall>j<i. strength (us ! j) \<noteq> M"
       "remove_first_with M us = take i us @ drop (Suc i) us" by blast
  have "\<forall>j<i. strength (us ! j) < strength (us ! i)"
  proof (intro allI impI)
    fix j assume j: "j < i"
    then have "strength (us ! j) \<le> M" using le i(1) by simp
    moreover have "strength (us ! j) \<noteq> M" using i(3) j by simp
    ultimately show "strength (us ! j) < strength (us ! i)" using i(2) by simp
  qed
  moreover have "remove_strongest_step us = take i us @ drop (Suc i) us"
    unfolding remove_strongest_step_def M_def [symmetric] by (rule i(4))
  ultimately show ?thesis using i(1,2) le by auto
qed

section \<open>Construction\<close>

lemma sum_list_replicate_int: "sum_list (replicate n (c::int)) = int n * c"
  by (induction n) (simp_all add: algebra_simps)

lemma lower_examples:
  "lower ''Chinese'' = ''chinese''" "lower ''ENGLISH'' = ''english''"
  "lower ''byzantine'' = ''byzantine''" "lower ''roman'' = ''roman''"
  "lower ''English'' = ''english''" "lower ''Archer'' = ''archer''"
  "lower ''KNIGHT'' = ''knight''" "lower ''knight'' = ''knight''"
  "lower ''archer'' = ''archer''"
  by code_simp+

lemma chinese_army_init: "Army_init ''chinese'' = Inr chinese_army"
  by code_simp

lemma english_army_init: "Army_init ''english'' = Inr english_army"
  by code_simp

text \<open>
  Claim C2. A name that lower-cases to \<open>chinese\<close>, \<open>english\<close> or \<open>byzantine\<close> yields an
  army with 1000 gold, an empty battle history and the preset roster, pikemen first, then
  archers, then knights: 2/25/2 (29 units, strength 300), 10/10/10 (30 units, strength
  350) and 5/8/15 (28 units, strength 405).
\<close>

theorem army_init_presets:
  "(lower name = ''chinese'' \<longrightarrow>
      (\<exists>a. Army_init name = Inr a \<and> gold a = 1000 \<and> battle_record a = [] \<and>
           units a = replicate 2 Pikeman @ replicate 25 Archer @ replicate 2 Knight \<and>
           length (units a) = 29 \<and> get_total_strength a = 300)) \<and>
   (lower name = ''english'' \<longrightarrow>
      (\<exists>a. Army_init name = Inr a \<and> gold a = 1000 \<and> battle_record a = [] \<and>
           units a = replicate 10 Pikeman @ replicate 10 Archer @ replicate 10 Knight \<and>
           length (units a) = 30 \<and> get_total_strength a = 350)) \<and>
   (lower name = ''byzantine'' \<longrightarrow>
      (\<exists>a. Army_init name = Inr a \<and> gold a = 1000 \<and> battle_record a = [] \<and>
           units a = replicate 5 Pikeman @ replicate 8 Archer @ replicate 15 Knight \<and>
           length (units a) = 28 \<and> get_total_strength a = 405))"
  by (simp add: Army_init_def get_total_strength_def sum_list_replicate_int
      Pikeman_def Archer_def Knight_def)

theorem army_init_presets_witness:
  "lower ''Chinese'' = ''chinese'' \<and> lower ''ENGLISH'' = ''english'' \<and>
   lower ''byzantine'' = ''byzantine'' \<and>
   (\<exists>a. Army_init ''Chinese'' = Inr a \<and> length (units a) = 29 \<and> get_total_strength a = 300) \<and>
   (\<exists>a. Army_init ''ENGLISH'' = Inr a \<and> length (units a) = 30 \<and> get_total_strength a = 350) \<and>
   (\<exists>a. Army_init ''byzantine'' = Inr a \<and> length (units a) = 28 \<and> get_total_strength a = 405)"
  using army_init_presets [of "''Chinese''"] army_init_presets [of "''ENGLISH''"]
    army_init_presets [of "''byzantine''"] lower_examples
  by auto

text \<open>
  Claim C9. A name that lower-cases to none of the three presets makes construction
  fail with the \<open>ValueError\<close> that reports the unknown civilization; a preset name
  constructs an army.
\<close>

theorem army_init_unknown:
  "(lower name \<notin> {''chinese'', ''english'', ''byzantine''} \<longrightarrow>
      Army_init name = Inl (ValueError (''Unknown civilization: '' @ name
                     @ ''. Valid options: chinese, english, byzantine''))) \<and>
   (lower name \<in> {''chinese'', ''english'', ''byzantine''} \<longrightarrow>
      (\<exists>a. Army_init name = Inr a))"
  by (auto simp: Army_init_def)

theorem army_init_unknown_witness:
  "lower ''roman'' \<notin> {''chinese'', ''english'', ''byzantine''} \<and>
   Army_init ''roman'' = Inl (ValueError
     ''Unknown civilization: roman. Valid options: chinese, english, byzantine'') \<and>
   lower ''English'' \<in> {''chinese'', ''english'', ''byzantine''} \<and>
   (\<exists>a. Army_init ''English'' = Inr a)"
  using army_init_unknown [of "''roman''"] army_init_unknown [of "''English''"]
  by (simp add: lower_examples)

section \<open>Training\<close>

text \<open>
  Claim C3. \<open>train_unit\<close> succeeds exactly when the index lies in the roster and the
  gold covers the training cost of the indexed unit. On success the gold drops by that
  cost and the unit's strength grows by its training gain, nothing else changing; on
  failure the army is unchanged.
\<close>

theorem train_unit_correct:
  "(fst (train_unit i a) \<longleftrightarrow>
      0 \<le> i \<and> i < int (length (units a)) \<and> gold a \<ge> training_cost (units a ! nat i)) \<and>
   (fst (train_unit i a) \<longrightarrow>
      gold (snd (train_unit i a)) = gold a - training_cost (units a ! nat i) \<and>
      units (snd (train_unit i a)) =
        (units a)[nat i := (units a ! nat i)\<lparr>strength := strength (units a ! nat i)
                                     + training_gain (units a ! nat i)\<rparr>] \<and>
      strength (units (snd (train_unit i a)) ! nat i) =
        strength (units a ! nat i) + training_gain (units a ! nat i) \<and>
      civilization (snd (train_unit i a)) = civilization a \<and>
      battle_record (snd (train_unit i a)) = battle_record a) \<and>
   (\<not> fst (train_unit i a) \<longrightarrow> snd (train_unit i a) = a)"
  by (auto simp: train_unit_def train_def Let_def)

theorem train_unit_correct_witness:
  "fst (train_unit 0 chinese_army) \<and>
   gold (snd (train_unit 0 chinese_army)) = 990 \<and>
   strength (units chinese_army ! 0) = 5 \<and>
   strength (units (snd (train_unit 0 chinese_army)) ! 0) = 8 \<and>
   \<not> fst (train_unit 29 chinese_army) \<and> snd (train_unit 29 chinese_army) = chinese_army \<and>
   \<not> fst (train_unit (- 1) chinese_army) \<and> snd (train_unit (- 1) chinese_army) = chinese_army \<and>
   \<not> fst (train_unit 0 poor_army) \<and> snd (train_unit 0 poor_army) = poor_army"
proof -
  have a: "length (units chinese_army) = 29" "gold chinese_army = 1000"
    "training_cost (units chinese_army ! 0) = 10" "training_gain (units chinese_army ! 0) = 3"
    "strength (units chinese_army ! 0) = 5"
    "length (units poor_army) = 29" "gold poor_army = 5"
    "training_cost (units poor_army ! 0) = 10"
    by code_simp+
  show ?thesis
    using train_unit_correct [of 0 chinese_army] train_unit_correct [of 29 chinese_army]
      train_unit_correct [of "- 1" chinese_army] train_unit_correct [of 0 poor_army]
    by (simp add: a)
qed

section \<open>Transformation\<close>

text \<open>
  Claim C4. \<open>transform_unit\<close> succeeds exactly on a valid index along the edge
  Pikeman to Archer with at least 30 gold or the edge Archer to Knight with at least 40
  gold; in every other case, a disallowed pair or too little gold, it fails and the army
  is unchanged. On success the cost is deducted and the unit at the same index is
  replaced by a fresh unit of the target type that keeps the old age and whose strength
  is the target's base strength plus the old strength minus the source's base strength.
\<close>

theorem transform_unit_correct:
  "(fst (transform_unit i t a) \<longleftrightarrow>
      0 \<le> i \<and> i < int (length (units a)) \<and>
      ((cls (units a ! nat i) = Pikeman_class \<and> lower t = ''archer'' \<and> gold a \<ge> 30) \<or>
       (cls (units a ! nat i) = Archer_class \<and> lower t = ''knight'' \<and> gold a \<ge> 40))) \<and>
   (\<not> fst (transform_unit i t a) \<longrightarrow> snd (transform_unit i t a) = a) \<and>
   (fst (transform_unit i t a) \<and> cls (units a ! nat i) = Pikeman_class \<longrightarrow>
      snd (transform_unit i t a) =
        a\<lparr>gold := gold a - 30,
          units := (units a)[nat i :=
            Archer\<lparr>years_of_life := years_of_life (units a ! nat i),
                   strength := strength Archer + (strength (units a ! nat i) - strength Pikeman)\<rparr>]\<rparr>) \<and>
   (fst (transform_unit i t a) \<and> cls (units a ! nat i) = Archer_class \<longrightarrow>
      snd (transform_unit i t a) =
        a\<lparr>gold := gold a - 40,
          units := (units a)[nat i :=
            Knight\<lparr>years_of_life := years_of_life (units a ! nat i),
                   strength := strength Knight + (strength (units a ! nat i) - strength Archer)\<rparr>]\<rparr>)"
  by (auto simp: transform_unit_def Let_def Pikeman_def Archer_def Knight_def)

theorem transform_unit_correct_witness:
  "fst (transform_unit 0 ''Archer'' chinese_army) \<and>
   gold (snd (transform_unit 0 ''Archer'' chinese_army)) = 970 \<and>
   cls (units (snd (transform_unit 0 ''Archer'' chinese_army)) ! 0) = Archer_class \<and>
   strength (units (snd (transform_unit 0 ''Archer'' chinese_army)) ! 0) = 10 \<and>
   fst (transform_unit 2 ''KNIGHT'' chinese_army) \<and>
   gold (snd (transform_unit 2 ''KNIGHT'' chinese_army)) = 960 \<and>
   cls (units (snd (transform_unit 2 ''KNIGHT'' chinese_army)) ! 2) = Knight_class \<and>
   \<not> fst (transform_unit 0 ''knight'' chinese_army) \<and>
   snd (transform_unit 0 ''knight'' chinese_army) = chinese_army \<and>
   \<not> fst (transform_unit 28 ''archer'' chinese_army) \<and>
   \<not> fst (transform_unit 2 ''archer'' chinese_army) \<and>
   \<not> fst (transform_unit 29 ''archer'' chinese_army) \<and>
   \<not> fst (transform_unit 0 ''Archer'' poor_army) \<and>
   snd (transform_unit 0 ''Archer'' poor_army) = poor_army"
proof -
  have a: "length (units chinese_army) = 29" "gold chinese_army = 1000"
    "cls (units chinese_army ! 0) = Pikeman_class" "cls (units chinese_army ! 2) = Archer_class"
    "cls (units chinese_army ! 28) = Knight_class"
    "length (units poor_army) = 29" "gold poor_army = 5"
    "cls (units poor_army ! 0) = Pikeman_class"
    "strength (units chinese_army ! 0) = 5" "strength (units chinese_army ! 2) = 10"
    "strength Pikeman = 5" "strength Archer = 10" "strength Knight = 20"
    "cls Archer = Archer_class" "cls Knight = Knight_class"
    by code_simp+
  show ?thesis
    using transform_unit_correct [of 0 "''Archer''" chinese_army]
      transform_unit_correct [of 2 "''KNIGHT''" chinese_army]
      transform_unit_correct [of 0 "''knight''" chinese_army]
      transform_unit_correct [of 28 "''archer''" chinese_army]
      transform_unit_correct [of 2 "''archer''" chinese_army]
      transform_unit_correct [of 29 "''archer''" chinese_army]
      transform_unit_correct [of 0 "''Archer''" poor_army]
    by (simp add: a lower_examples)
qed

text \<open>
  Claim C8. A pikeman of strength 11 (6 above its base 5) becomes an archer of strength
  16 and then a knight of strength 26, when the gold suffices for both steps (30 and
  then 40).
\<close>

theorem transform_unit_chain:
  assumes "0 \<le> i" "i < int (length (units a))"
    and "cls (units a ! nat i) = Pikeman_class" "strength (units a ! nat i) = 11"
    and "gold a \<ge> 70"
    and "lower t1 = ''archer''" "lower t2 = ''knight''"
  shows "fst (transform_unit i t1 a) \<and>
         cls (units (snd (transform_unit i t1 a)) ! nat i) = Archer_class \<and>
         strength (units (snd (transform_unit i t1 a)) ! nat i) = 16 \<and>
         fst (transform_unit i t2 (snd (transform_unit i t1 a))) \<and>
         cls (units (snd (transform_unit i t2 (snd (transform_unit i t1 a)))) ! nat i) = Knight_class \<and>
         strength (units (snd (transform_unit i t2 (snd (transform_unit i t1 a)))) ! nat i) = 26 \<and>
         years_of_life (units (snd (transform_unit i t2 (snd (transform_unit i t1 a)))) ! nat i)
           = years_of_life (units a ! nat i) \<and>
         gold (snd (transform_unit i t2 (snd (transform_unit i t1 a)))) = gold a - 70"
  using assms
  by (simp add: transform_unit_def Let_def Pikeman_def Archer_def Knight_def)

theorem transform_unit_chain_witness:
  "cls (units trained_twice ! 0) = Pikeman_class \<and> strength (units trained_twice ! 0) = 11 \<and>
   gold trained_twice = 980 \<and>
   cls (units (snd (transform_unit 0 ''archer'' trained_twice)) ! 0) = Archer_class \<and>
   strength (units (snd (transform_unit 0 ''archer'' trained_twice)) ! 0) = 16 \<and>
   cls (units (snd (transform_unit 0 ''knight''
          (snd (transform_unit 0 ''archer'' trained_twice)))) ! 0) = Knight_class \<and>
   strength (units (snd (transform_unit 0 ''knight''
          (snd (transform_unit 0 ''archer'' trained_twice)))) ! 0) = 26 \<and>
   gold (snd (transform_unit 0 ''knight''
          (snd (transform_unit 0 ''archer'' trained_twice)))) = 910"
proof -
  have i: "(0::int) \<le> 0" "0 < int (length (units trained_twice))"
    and c: "cls (units trained_twice ! nat 0) = Pikeman_class"
    and s: "strength (units trained_twice ! nat 0) = 11"
    and g: "gold trained_twice \<ge> 70" "gold trained_twice = 980"
    by code_simp+
  show ?thesis
    using transform_unit_chain [OF i c s g(1) lower_examples(9) lower_examples(8)] c s g(2)
    by simp
qed

section \<open>Battles\<close>

text \<open>
  Claim C5. \<open>attack\<close> returns \<open>no_units\<close> when the attacker's roster is empty and
  \<open>no_target\<close> when only the opponent's roster is empty; in both cases the store, and
  with it every field of both armies, is unchanged.
\<close>

theorem attack_empty_roster:
  "(units (h self) = [] \<longrightarrow> attack self other h = Inr (''no_units'', h)) \<and>
   (units (h self) \<noteq> [] \<and> units (h other) = [] \<longrightarrow>
      attack self other h = Inr (''no_target'', h))"
  by (simp add: attack_def)

theorem attack_empty_roster_witness:
  "units (routed_store 0) = [] \<and> attack 0 1 routed_store = Inr (''no_units'', routed_store) \<and>
   attack 0 0 routed_store = Inr (''no_units'', routed_store) \<and>
   units (routed_store 1) \<noteq> [] \<and> attack 1 0 routed_store = Inr (''no_target'', routed_store)"
proof -
  have a: "units (routed_store 0) = []" and b: "units (routed_store 1) \<noteq> []"
    by (simp_all add: routed_store_def english_army_def)
  show ?thesis
    using attack_empty_roster [of routed_store 0 1] attack_empty_roster [of routed_store 0 0]
      attack_empty_roster [of routed_store 1 0] a b
    by blast
qed

subsection \<open>What a battle computes\<close>

lemma battle_outcome_distinct:
  assumes "self \<noteq> other"
  shows "battle_outcome self other our enemy h =
    Inr (verdict_of our enemy,
         h(self := (h self)\<lparr>gold := gold (h self) + (if our > enemy then 100 else 0),
                           units := remove_strongest_spec
                              (if our > enemy then 0 else if enemy > our then 2 else 1) (units (h self))\<rparr>,
           other := (h other)\<lparr>gold := gold (h other) + (if our > enemy then 0 else if enemy > our then 100 else 0),
                           units := remove_strongest_spec
                              (if our > enemy then 2 else if enemy > our then 0 else 1) (units (h other))\<rparr>))"
  using assms
  by (auto simp: battle_outcome_def verdict_of_def remove_strongest_units_spec Let_def fun_upd_twist)

lemma battle_outcome_self:
  "battle_outcome self self our our h =
    Inr (''draw'', h(self := (h self)\<lparr>units := remove_strongest_spec 1 (remove_strongest_spec 1 (units (h self)))\<rparr>))"
  by (simp add: battle_outcome_def remove_strongest_units_spec Let_def)

lemma attack_self:
  assumes "units (h self) \<noteq> []"
  shows "attack self self h = Inr (''draw'',
     h(self := (h self)\<lparr>units := map age_unit (map age_unit
                 (remove_strongest_spec 1 (remove_strongest_spec 1 (units (h self))))),
         battle_record := battle_record (h self) @
           [\<lparr>opponent = civilization (h self), our_strength = get_total_strength (h self),
             enemy_strength = get_total_strength (h self), result = ''draw''\<rparr>,
            \<lparr>opponent = civilization (h self), our_strength = get_total_strength (h self),
             enemy_strength = get_total_strength (h self), result = ''draw''\<rparr>]\<rparr>))"
  using assms
  by (simp add: attack_def battle_outcome_self Let_def age_all_units_def
      append_battle_def mirrored_def)

lemma attack_self_result:
  assumes "units (h self) \<noteq> []" "attack self self h = Inr (res, h')"
  shows "units (h' self) = map age_unit (map age_unit
           (remove_strongest_spec 1 (remove_strongest_spec 1 (units (h self)))))"
    and "length (battle_record (h' self)) = length (battle_record (h self)) + 2"
  using assms(2) unfolding attack_self [where h = h and self = self, OF assms(1)]
  by (auto simp del: remove_strongest_spec.simps)

lemma two_armies_facts:
  "units (two_armies 0) \<noteq> []" "units (two_armies 1) \<noteq> []"
  "get_total_strength (two_armies 0) = 300" "get_total_strength (two_armies 1) = 350"
  "length (units (two_armies 0)) = 29" "length (units (two_armies 1)) = 30"
  "gold (two_armies 0) = 1000" "gold (two_armies 1) = 1000"
  by code_simp+

lemma two_armies_init:
  "Army_init ''chinese'' = Inr (two_armies 0)" "Army_init ''english'' = Inr (two_armies 1)"
  by (simp_all add: two_armies_def chinese_army_init english_army_init)

text \<open>
  The Chinese army (strength 300) attacks the English one (strength 350): it is
  defeated and loses its two knights, the English army gains 100 gold, every remaining
  unit is one year old and each history holds one entry.
\<close>

lemma attack_example:
  "fst (projr (attack 0 1 two_armies)) = ''defeat''"
  "gold (snd (projr (attack 0 1 two_armies)) 0) = 1000"
  "gold (snd (projr (attack 0 1 two_armies)) 1) = 1100"
  "map strength (units (snd (projr (attack 0 1 two_armies)) 0)) = replicate 2 5 @ replicate 25 10"
  "map years_of_life (units (snd (projr (attack 0 1 two_armies)) 0)) = replicate 27 1"
  "length (units (snd (projr (attack 0 1 two_armies)) 1)) = 30"
  "battle_record (snd (projr (attack 0 1 two_armies)) 0) =
     [\<lparr>opponent = ''english'', our_strength = 300, enemy_strength = 350, result = ''defeat''\<rparr>]"
  "battle_record (snd (projr (attack 0 1 two_armies)) 1) =
     [\<lparr>opponent = ''chinese'', our_strength = 350, enemy_strength = 300, result = ''victory''\<rparr>]"
  by code_simp+

text \<open>
  The Chinese army attacks itself: a draw, after which it has lost two units, its
  survivors are two years old and its history holds two entries.
\<close>

lemma attack_self_example:
  "fst (projr (attack 0 0 two_armies)) = ''draw''"
  "gold (snd (projr (attack 0 0 two_armies)) 0) = 1000"
  "map strength (units (snd (projr (attack 0 0 two_armies)) 0)) = replicate 2 5 @ replicate 25 10"
  "map years_of_life (units (snd (projr (attack 0 0 two_armies)) 0)) = replicate 27 2"
  "battle_record (snd (projr (attack 0 0 two_armies)) 0) =
     [\<lparr>opponent = ''chinese'', our_strength = 300, enemy_strength = 300, result = ''draw''\<rparr>,
      \<lparr>opponent = ''chinese'', our_strength = 300, enemy_strength = 300, result = ''draw''\<rparr>]"
  by code_simp+

subsection \<open>Gold and losses\<close>

text \<open>
  Claim C1, for an attack on a different army. When both rosters are non-empty, the
  stronger army gains exactly 100 gold and the weaker one loses its two strongest units
  (all of them when it has fewer), and on equal strength no gold changes and each army
  loses its single strongest unit; the units lost are those the iterative policy
  \<open>remove_strongest_spec\<close> removes.
\<close>

theorem attack_outcome_distinct:
  assumes "self \<noteq> other" "units (h self) \<noteq> []" "units (h other) \<noteq> []"
  shows "attack_outcome_claim self other h"
  using assms
  by (simp add: attack_outcome_claim_def attack_def battle_outcome_distinct Let_def
      age_all_units_def append_battle_def verdict_of_def)

theorem attack_outcome_distinct_witness:
  "(0::nat) \<noteq> 1 \<and> units (two_armies 0) \<noteq> [] \<and> units (two_armies 1) \<noteq> [] \<and>
   attack_outcome_claim 0 1 two_armies \<and> attack_outcome_claim 1 0 two_armies"
proof -
  have d: "(0::nat) \<noteq> 1" "(1::nat) \<noteq> 0" by simp_all
  note n = two_armies_facts(1,2)
  show ?thesis
    using d(1) n attack_outcome_distinct [OF d(1) n(1) n(2)]
      attack_outcome_distinct [OF d(2) n(2) n(1)]
    by blast
qed

text \<open>
  An army that attacks itself is as strong as its opponent, so the draw branch removes
  a strongest unit twice from the one roster: the Chinese army of 29 units is left with
  27, not 28.
\<close>

theorem attack_outcome_self_counterexample:
  "Army_init ''chinese'' = Inr (two_armies 0) \<and> units (two_armies 0) \<noteq> [] \<and>
   \<not> attack_outcome_claim 0 0 two_armies"
proof -
  have init: "Army_init ''chinese'' = Inr (two_armies 0)" by (rule two_armies_init(1))
  have ne: "units (two_armies 0) \<noteq> []" by (rule two_armies_facts(1))
  have len: "length (units (two_armies 0)) = 29" by (rule two_armies_facts(5))
  have "\<not> attack_outcome_claim 0 0 two_armies"
  proof
    assume "attack_outcome_claim 0 0 two_armies"
    then obtain res h' where
      a: "attack 0 0 two_armies = Inr (res, h')" and
      u: "units (h' 0) = map age_unit (remove_strongest_spec 1 (units (two_armies 0)))"
      unfolding attack_outcome_claim_def by (auto simp: Let_def)
    from u have "length (units (h' 0)) = 28"
      by (simp only: length_map remove_strongest_spec_length len)
    moreover have "length (units (h' 0)) = 27"
      unfolding attack_self_result(1) [OF ne a]
      by (simp only: length_map remove_strongest_spec_length len)
    ultimately show False by simp
  qed
  with init ne show ?thesis by simp
qed

subsection \<open>Aging\<close>

text \<open>The removal loop over references never raises and only takes references away.\<close>

lemma foldl_stronger_obj_in: "foldl (stronger_obj H) u rest \<in> set (u # rest)"
proof (induction rest arbitrary: u)
  case Nil
  show ?case by simp
next
  case (Cons x xs)
  have "foldl (stronger_obj H) (stronger_obj H u x) xs \<in> set (stronger_obj H u x # xs)"
    by (rule Cons.IH)
  then show ?case by (auto split: if_splits)
qed

lemma py_max_obj_in:
  "us \<noteq> [] \<Longrightarrow> \<exists>m. py_max_obj H us = Inr m \<and> m \<in> set us"
  using foldl_stronger_obj_in [of H] by (cases us) (auto simp: py_max_obj_def)

lemma remove_loop_obj_total:
  "k \<le> length us \<Longrightarrow>
   \<exists>us'. remove_loop_obj H k us = Inr us' \<and> set us' \<subseteq> set us \<and>
         (distinct us \<longrightarrow> distinct us') \<and> length us' + k = length us"
proof (induction k arbitrary: us)
  case 0
  show ?case by simp
next
  case (Suc k)
  then have ne: "us \<noteq> []" by auto
  from py_max_obj_in [OF ne] obtain m where m: "py_max_obj H us = Inr m" "m \<in> set us" by blast
  have len: "Suc (length (remove1 m us)) = length us"
    using m(2) by (simp add: length_remove1) (cases us; simp)
  then have "k \<le> length (remove1 m us)" using Suc.prems by simp
  from Suc.IH [OF this] obtain us' where
    us': "remove_loop_obj H k (remove1 m us) = Inr us'" "set us' \<subseteq> set (remove1 m us)"
      "distinct (remove1 m us) \<longrightarrow> distinct us'" "length us' + k = length (remove1 m us)"
    by blast
  have "set us' \<subseteq> set us" using us'(2) set_remove1_subset [of m us] by blast
  moreover have "distinct us \<longrightarrow> distinct us'" using us'(3) by simp
  moreover have "length us' + Suc k = length us" using us'(4) len by simp
  ultimately show ?case using m us'(1) by (simp add: list_remove_obj_def)
qed

lemma remove_strongest_units_obj_total:
  "\<exists>us'. remove_strongest_units_obj H n a = Inr (a\<lparr>obj_units := us'\<rparr>) \<and>
         set us' \<subseteq> set (obj_units a) \<and> (distinct (obj_units a) \<longrightarrow> distinct us')"
proof (cases "obj_units a = []")
  case True
  then have "remove_strongest_units_obj H n a = Inr (a\<lparr>obj_units := []\<rparr>)"
    by (simp add: remove_strongest_units_obj_def)
  then show ?thesis by auto
next
  case False
  have "nat (min n (int (length (obj_units a)))) \<le> length (obj_units a)" by simp
  from remove_loop_obj_total [OF this, of H] obtain us' where
    "remove_loop_obj H (nat (min n (int (length (obj_units a))))) (obj_units a) = Inr us'"
    "set us' \<subseteq> set (obj_units a)" "distinct (obj_units a) \<longrightarrow> distinct us'" by blast
  then show ?thesis using False by (auto simp: remove_strongest_units_obj_def Let_def)
qed

text \<open>
  Aging a roster that holds no unit twice adds one year to each of its units and leaves
  every other unit object alone.
\<close>

lemma age_fold:
  "distinct us \<Longrightarrow>
   foldl (\<lambda>H' u. H'(u := (H' u)\<lparr>years_of_life := years_of_life (H' u) + 1\<rparr>)) H us
     = (\<lambda>u. if u \<in> set us then (H u)\<lparr>years_of_life := years_of_life (H u) + 1\<rparr> else H u)"
proof (induction us arbitrary: H)
  case Nil
  show ?case by simp
next
  case (Cons x xs)
  then have d: "distinct xs" and x: "x \<notin> set xs" by simp_all
  show ?case
    unfolding foldl_Cons Cons.IH [OF d] using x by (auto simp: fun_eq_iff)
qed

lemma age_all_units_obj_distinct:
  "distinct (obj_units a) \<Longrightarrow>
   age_all_units_obj a H
     = (\<lambda>u. if u \<in> set (obj_units a) then (H u)\<lparr>years_of_life := years_of_life (H u) + 1\<rparr>
            else H u)"
  unfolding age_all_units_obj_def by (rule age_fold)

text \<open>What \<open>attack_obj\<close> computes when an army attacks a different one.\<close>

lemma remove_strongest_units_obj_zero:
  "remove_strongest_units_obj H 0 a = Inr (a\<lparr>obj_units := obj_units a\<rparr>)"
  by (simp add: remove_strongest_units_obj_def)

lemma battle_outcome_obj_distinct:
  assumes "self \<noteq> other"
  shows "\<exists>us1 us2.
      remove_strongest_units_obj H (if our > enemy then 0 else if enemy > our then 2 else 1)
        (A self) = Inr ((A self)\<lparr>obj_units := us1\<rparr>) \<and>
      remove_strongest_units_obj H (if our > enemy then 2 else if enemy > our then 0 else 1)
        (A other) = Inr ((A other)\<lparr>obj_units := us2\<rparr>) \<and>
      battle_outcome_obj self other our enemy H A =
      Inr (verdict_of our enemy,
           A(self := (A self)\<lparr>obj_gold := obj_gold (A self) + (if our > enemy then 100 else 0),
                              obj_units := us1\<rparr>,
             other := (A other)\<lparr>obj_gold := obj_gold (A other)
                                  + (if our > enemy then 0 else if enemy > our then 100 else 0),
                              obj_units := us2\<rparr>)) \<and>
      set us1 \<subseteq> set (obj_units (A self)) \<and> (distinct (obj_units (A self)) \<longrightarrow> distinct us1) \<and>
      set us2 \<subseteq> set (obj_units (A other)) \<and> (distinct (obj_units (A other)) \<longrightarrow> distinct us2)"
proof -
  define k1 :: int where "k1 = (if our > enemy then 0 else if enemy > our then 2 else 1)"
  define k2 :: int where "k2 = (if our > enemy then 2 else if enemy > our then 0 else 1)"
  from remove_strongest_units_obj_total [of H k1 "A self"] obtain us1 where
    r1: "remove_strongest_units_obj H k1 (A self) = Inr ((A self)\<lparr>obj_units := us1\<rparr>)"
       "set us1 \<subseteq> set (obj_units (A self))"
       "distinct (obj_units (A self)) \<longrightarrow> distinct us1" by blast
  from remove_strongest_units_obj_total [of H k2 "A other"] obtain us2 where
    r2: "remove_strongest_units_obj H k2 (A other) = Inr ((A other)\<lparr>obj_units := us2\<rparr>)"
       "set us2 \<subseteq> set (obj_units (A other))"
       "distinct (obj_units (A other)) \<longrightarrow> distinct us2" by blast
  have z1: "our > enemy \<Longrightarrow> us1 = obj_units (A self)"
    using r1(1) by (simp add: k1_def remove_strongest_units_obj_zero)
       (metis Army_obj.select_convs(3) Army_obj.surjective Army_obj.update_convs(3))
  have z2: "\<not> our > enemy \<Longrightarrow> enemy > our \<Longrightarrow> us2 = obj_units (A other)"
    using r2(1) by (simp add: k2_def remove_strongest_units_obj_zero)
       (metis Army_obj.select_convs(3) Army_obj.surjective Army_obj.update_convs(3))
  consider (win) "our > enemy" | (lose) "\<not> our > enemy" "enemy > our"
    | (draw) "\<not> our > enemy" "\<not> enemy > our" by blast
  then have "battle_outcome_obj self other our enemy H A =
      Inr (verdict_of our enemy,
           A(self := (A self)\<lparr>obj_gold := obj_gold (A self) + (if our > enemy then 100 else 0),
                              obj_units := us1\<rparr>,
             other := (A other)\<lparr>obj_gold := obj_gold (A other)
                                  + (if our > enemy then 0 else if enemy > our then 100 else 0),
                              obj_units := us2\<rparr>))"
  proof cases
    case win
    with assms r2(1) z1 show ?thesis
      by (simp add: battle_outcome_obj_def verdict_of_def Let_def k2_def)
  next
    case lose
    with assms r1(1) z2 show ?thesis
      by (simp add: battle_outcome_obj_def verdict_of_def Let_def k1_def fun_upd_twist)
  next
    case draw
    with assms r1(1) r2(1) show ?thesis
      by (simp add: battle_outcome_obj_def verdict_of_def Let_def k1_def k2_def)
  qed
  with r1 r2 show ?thesis unfolding k1_def k2_def by blast
qed


lemma attack_obj_distinct:
  assumes "self \<noteq> other"
    and "obj_units (armies w self) \<noteq> []" "obj_units (armies w other) \<noteq> []"
    and "exclusive_units self other w"
  defines "our \<equiv> get_total_strength_obj (objects w) (armies w self)"
    and "enemy \<equiv> get_total_strength_obj (objects w) (armies w other)"
  shows "\<exists>us1 us2 w'.
      remove_strongest_units_obj (objects w)
        (if our > enemy then 0 else if enemy > our then 2 else 1) (armies w self)
        = Inr ((armies w self)\<lparr>obj_units := us1\<rparr>) \<and>
      remove_strongest_units_obj (objects w)
        (if our > enemy then 2 else if enemy > our then 0 else 1) (armies w other)
        = Inr ((armies w other)\<lparr>obj_units := us2\<rparr>) \<and>
      set us1 \<subseteq> set (obj_units (armies w self)) \<and>
      set us2 \<subseteq> set (obj_units (armies w other)) \<and>
      attack_obj self other w = Inr (verdict_of our enemy, w') \<and>
      armies w' = (armies w)
        (self := (armies w self)
           \<lparr>obj_gold := obj_gold (armies w self) + (if our > enemy then 100 else 0),
            obj_units := us1,
            obj_battle_record := obj_battle_record (armies w self) @
              [\<lparr>opponent = obj_civilization (armies w other), our_strength = our,
                enemy_strength = enemy, result = verdict_of our enemy\<rparr>]\<rparr>,
         other := (armies w other)
           \<lparr>obj_gold := obj_gold (armies w other)
               + (if our > enemy then 0 else if enemy > our then 100 else 0),
            obj_units := us2,
            obj_battle_record := obj_battle_record (armies w other) @
              [\<lparr>opponent = obj_civilization (armies w self), our_strength = enemy,
                enemy_strength = our, result = verdict_of enemy our\<rparr>]\<rparr>) \<and>
      objects w' = (\<lambda>u. if u \<in> set us1 \<union> set us2
         then (objects w u)\<lparr>years_of_life := years_of_life (objects w u) + 1\<rparr>
         else objects w u)"
proof -
  define A H where "A = armies w" and "H = objects w"
  have tot: "get_total_strength_obj H (A self) = our" "get_total_strength_obj H (A other) = enemy"
    by (simp_all add: our_def enemy_def A_def H_def)
  from assms(1,4) have d1: "distinct (obj_units (A self))" and d2: "distinct (obj_units (A other))"
    and dj: "set (obj_units (A self)) \<inter> set (obj_units (A other)) = {}"
    by (simp_all add: exclusive_units_def A_def)
  from battle_outcome_obj_distinct [OF assms(1), where H = H and our = our and enemy = enemy and A = A] obtain us1 us2 A2 where
    r1: "remove_strongest_units_obj H (if our > enemy then 0 else if enemy > our then 2 else 1)
        (A self) = Inr ((A self)\<lparr>obj_units := us1\<rparr>)"
    and r2: "remove_strongest_units_obj H (if our > enemy then 2 else if enemy > our then 0 else 1)
        (A other) = Inr ((A other)\<lparr>obj_units := us2\<rparr>)"
    and A2: "A2 = A(self := (A self)\<lparr>obj_gold := obj_gold (A self) + (if our > enemy then 100 else 0),
                              obj_units := us1\<rparr>,
             other := (A other)\<lparr>obj_gold := obj_gold (A other)
                                  + (if our > enemy then 0 else if enemy > our then 100 else 0),
                              obj_units := us2\<rparr>)"
    and b: "battle_outcome_obj self other our enemy H A = Inr (verdict_of our enemy, A2)"
    and s1: "set us1 \<subseteq> set (obj_units (A self))" and s2: "set us2 \<subseteq> set (obj_units (A other))"
    and e1: "distinct us1" and e2: "distinct us2"
    using d1 d2 by blast
  have u1: "obj_units (A2 self) = us1" and u2: "obj_units (A2 other) = us2"
    using assms(1) by (simp_all add: A2)
  define H3 where "H3 = age_all_units_obj (A2 self) H"
  define H4 where "H4 = age_all_units_obj (A2 other) H3"
  have H3: "H3 = (\<lambda>u. if u \<in> set us1 then (H u)\<lparr>years_of_life := years_of_life (H u) + 1\<rparr> else H u)"
    unfolding H3_def using age_all_units_obj_distinct [of "A2 self" H] e1 u1 by simp
  have H4': "H4 = (\<lambda>u. if u \<in> set us2 then (H3 u)\<lparr>years_of_life := years_of_life (H3 u) + 1\<rparr> else H3 u)"
    unfolding H4_def using age_all_units_obj_distinct [of "A2 other" H3] e2 u2 by simp
  have disj: "set us1 \<inter> set us2 = {}" using s1 s2 dj by blast
  have H4: "H4 = (\<lambda>u. if u \<in> set us1 \<union> set us2
      then (H u)\<lparr>years_of_life := years_of_life (H u) + 1\<rparr> else H u)"
    unfolding H4' H3 using disj by (auto simp: fun_eq_iff)
  define A6 where "A6 = (A2(self := append_battle_obj
                          \<lparr>opponent = obj_civilization (A other), our_strength = our,
                           enemy_strength = enemy, result = verdict_of our enemy\<rparr> (A2 self)))
                        (other := append_battle_obj
                          \<lparr>opponent = obj_civilization (A2 self), our_strength = enemy,
                           enemy_strength = our, result = mirrored (verdict_of our enemy)\<rparr> (A2 other))"
  have att: "attack_obj self other w = Inr (verdict_of our enemy, \<lparr>armies = A6, objects = H4\<rparr>)"
    using assms(1,2,3) b
    unfolding attack_obj_def A_def [symmetric] H_def [symmetric] tot
    by (simp add: Let_def H3_def H4_def A6_def append_battle_obj_def)
  have mir: "mirrored (verdict_of our enemy) = verdict_of enemy our"
    by (simp add: mirrored_def verdict_of_def)
  have A6: "A6 = A
        (self := (A self)
           \<lparr>obj_gold := obj_gold (A self) + (if our > enemy then 100 else 0),
            obj_units := us1,
            obj_battle_record := obj_battle_record (A self) @
              [\<lparr>opponent = obj_civilization (A other), our_strength = our,
                enemy_strength = enemy, result = verdict_of our enemy\<rparr>]\<rparr>,
         other := (A other)
           \<lparr>obj_gold := obj_gold (A other)
               + (if our > enemy then 0 else if enemy > our then 100 else 0),
            obj_units := us2,
            obj_battle_record := obj_battle_record (A other) @
              [\<lparr>opponent = obj_civilization (A self), our_strength = enemy,
                enemy_strength = our, result = verdict_of enemy our\<rparr>]\<rparr>)"
    using assms(1) unfolding A6_def A2 mir by (simp add: append_battle_obj_def)
  show ?thesis
    using r1 r2 s1 s2 att A6 H4 unfolding A_def H_def
    by (intro exI [of _ us1] exI [of _ us2] exI [of _ "\<lparr>armies = A6, objects = H4\<rparr>"]) simp
qed

text \<open>
  The removal loop over references removes what the loop over values removes, so
  \<open>attack_obj\<close> and \<open>attack\<close> describe the same battle.
\<close>

lemma Max_key_snoc:
  "Max (set (map key (u # xs @ [x]))) = max (key x) (Max (set (map key (u # xs))))"
  for key :: "'a \<Rightarrow> int"
proof -
  have "set (map key (u # xs @ [x])) = insert (key x) (set (map key (u # xs)))"
    by auto
  then show ?thesis
    by (simp only: Max_insert [OF finite_set] list.simps(9) set_empty list.distinct not_False_eq_True)
qed

lemma foldl_key_max:
  "key (foldl (\<lambda>best x. if key x > key best then x else best) u rest)
     = Max (set (map key (u # rest)))"
  for key :: "'a \<Rightarrow> int"
proof (induction rest rule: rev_induct)
  case Nil
  show ?case by simp
next
  case (snoc x xs)
  have "key (foldl (\<lambda>best x. if key x > key best then x else best) u (xs @ [x]))
      = max (key x) (key (foldl (\<lambda>best x. if key x > key best then x else best) u xs))"
    by (simp add: max_def)
  also have "\<dots> = max (key x) (Max (set (map key (u # xs))))"
    by (simp only: snoc.IH)
  also have "\<dots> = Max (set (map key (u # xs @ [x])))"
    by (simp only: Max_key_snoc)
  finally show ?case .
qed

lemma foldl_key_find:
  "find (\<lambda>x. key x = Max (set (map key (u # rest)))) (u # rest)
     = Some (foldl (\<lambda>best x. if key x > key best then x else best) u rest)"
  for key :: "'a \<Rightarrow> int"
proof (induction rest rule: rev_induct)
  case Nil
  show ?case by simp
next
  case (snoc x xs)
  define M where "M = Max (set (map key (u # xs)))"
  define m where "m = foldl (\<lambda>best x. if key x > key best then x else best) u xs"
  have sm: "key m = M" unfolding m_def M_def by (rule foldl_key_max)
  have le: "\<forall>y \<in> set (u # xs). key y \<le> M" unfolding M_def by simp
  have IH: "find (\<lambda>y. key y = M) (u # xs) = Some m"
    unfolding M_def m_def by (rule snoc.IH)
  have M': "Max (set (map key (u # xs @ [x]))) = max (key x) M"
    unfolding M_def by (rule Max_key_snoc)
  have step: "foldl (\<lambda>best x. if key x > key best then x else best) u (xs @ [x])
      = (if key m < key x then x else m)"
    by (simp add: m_def)
  show ?case
  proof (cases "key x > M")
    case True
    then have none: "find (\<lambda>y. key y = key x) (u # xs) = None"
      using le by (fastforce simp: find_None_iff)
    have mx: "max (key x) M = key x" using True by simp
    have "find (\<lambda>y. key y = key x) ((u # xs) @ [x]) = Some x"
      by (simp only: find_snoc none) simp
    then show ?thesis
      unfolding M' mx step using True sm by simp
  next
    case False
    then have mx: "max (key x) M = M" by simp
    have "find (\<lambda>y. key y = M) ((u # xs) @ [x]) = Some m"
      by (simp only: find_snoc IH) simp
    then show ?thesis
      unfolding M' mx step using False sm by simp
  qed
qed

lemma remove1_find_obj:
  "find (\<lambda>x. strength (H x) = m) us = Some y \<Longrightarrow>
   map H (remove1 y us) = remove_first_with m (map H us)"
proof (induction us)
  case Nil
  then show ?case by simp
next
  case (Cons a us)
  from Cons.prems have "strength (H y) = m"
    using find_holds [of "\<lambda>x. strength (H x) = m"] by blast
  with Cons show ?case by (auto split: if_splits)
qed

lemma py_max_obj_step:
  assumes "us \<noteq> []"
  shows "\<exists>m. py_max_obj H us = Inr m \<and> m \<in> set us \<and>
             map H (remove1 m us) = remove_strongest_step (map H us)"
proof -
  from assms obtain u rest where us: "us = u # rest" by (cases us) auto
  let ?m = "foldl (stronger_obj H) u rest"
  have f: "find (\<lambda>x. strength (H x) = Max (set (map (\<lambda>x. strength (H x)) us))) us = Some ?m"
    unfolding us by (rule foldl_key_find [where key = "\<lambda>x. strength (H x)"])
  have mm: "map (\<lambda>x. strength (H x)) us = map strength (map H us)" by simp
  have "py_max_obj H us = Inr ?m" by (simp add: py_max_obj_def us)
  moreover have "?m \<in> set us" using find_holds [OF f] by simp
  moreover have "map H (remove1 ?m us) = remove_strongest_step (map H us)"
    unfolding remove_strongest_step_def mm [symmetric] by (rule remove1_find_obj [OF f])
  ultimately show ?thesis by blast
qed

lemma remove_loop_obj_map:
  "k \<le> length us \<Longrightarrow>
   \<exists>us'. remove_loop_obj H k us = Inr us' \<and> map H us' = remove_strongest_spec k (map H us)"
proof (induction k arbitrary: us)
  case 0
  show ?case by simp
next
  case (Suc k)
  then have ne: "us \<noteq> []" by auto
  from py_max_obj_step [OF ne, of H] obtain m where
    m: "py_max_obj H us = Inr m" "m \<in> set us"
       "map H (remove1 m us) = remove_strongest_step (map H us)" by blast
  have "Suc (length (remove1 m us)) = length us"
    using m(2) by (simp add: length_remove1) (cases us; simp)
  then have "k \<le> length (remove1 m us)" using Suc.prems by simp
  from Suc.IH [OF this] obtain us' where
    "remove_loop_obj H k (remove1 m us) = Inr us'"
    "map H us' = remove_strongest_spec k (map H (remove1 m us))" by blast
  then show ?case using m ne by (simp add: list_remove_obj_def)
qed

lemma remove_strongest_units_obj_map:
  assumes "remove_strongest_units_obj H n a = Inr (a\<lparr>obj_units := us'\<rparr>)"
  shows "map H us' = remove_strongest_spec (nat n) (map H (obj_units a))"
proof (cases "obj_units a = []")
  case True
  with assms have "a\<lparr>obj_units := us'\<rparr> = a" by (simp add: remove_strongest_units_obj_def)
  then have "obj_units (a\<lparr>obj_units := us'\<rparr>) = obj_units a" by simp
  then have "us' = []" using True by simp
  then show ?thesis using True by (simp add: remove_strongest_spec_Nil)
next
  case False
  define k where "k = min (nat n) (length (obj_units a))"
  have eq: "nat (min n (int (length (obj_units a)))) = k" by (simp add: k_def)
  have "k \<le> length (obj_units a)" by (simp add: k_def)
  from remove_loop_obj_map [OF this, of H] obtain vs where
    vs: "remove_loop_obj H k (obj_units a) = Inr vs"
        "map H vs = remove_strongest_spec k (map H (obj_units a))" by blast
  from assms False vs(1) have "a\<lparr>obj_units := vs\<rparr> = a\<lparr>obj_units := us'\<rparr>"
    by (simp add: remove_strongest_units_obj_def Let_def eq)
  then have "obj_units (a\<lparr>obj_units := vs\<rparr>) = obj_units (a\<lparr>obj_units := us'\<rparr>)" by simp
  then have "vs = us'" by simp
  moreover have "remove_strongest_spec k (map H (obj_units a))
      = remove_strongest_spec (nat n) (map H (obj_units a))"
    unfolding k_def using remove_strongest_spec_min [of "nat n" "map H (obj_units a)"] by simp
  ultimately show ?thesis using vs(2) by simp
qed

lemma get_total_strength_abs:
  "get_total_strength (abs_army H a) = get_total_strength_obj H a"
  by (simp add: get_total_strength_def get_total_strength_obj_def abs_army_def comp_def)

lemma attack_obj_refines:
  assumes "self \<noteq> other"
    and "obj_units (armies w self) \<noteq> []" "obj_units (armies w other) \<noteq> []"
    and "exclusive_units self other w"
  shows "\<exists>res w' h'. attack_obj self other w = Inr (res, w') \<and>
           attack self other (abs_store w) = Inr (res, h') \<and>
           h' self = abs_store w' self \<and> h' other = abs_store w' other"
proof -
  define our enemy where "our = get_total_strength_obj (objects w) (armies w self)"
    and "enemy = get_total_strength_obj (objects w) (armies w other)"
  define k1 k2 :: int where "k1 = (if our > enemy then 0 else if enemy > our then 2 else 1)"
    and "k2 = (if our > enemy then 2 else if enemy > our then 0 else 1)"
  from attack_obj_distinct [OF assms] obtain us1 us2 w' where
    r1: "remove_strongest_units_obj (objects w) k1 (armies w self)
          = Inr ((armies w self)\<lparr>obj_units := us1\<rparr>)"
    and r2: "remove_strongest_units_obj (objects w) k2 (armies w other)
          = Inr ((armies w other)\<lparr>obj_units := us2\<rparr>)"
    and att: "attack_obj self other w = Inr (verdict_of our enemy, w')"
    and A': "armies w' = (armies w)
        (self := (armies w self)
           \<lparr>obj_gold := obj_gold (armies w self) + (if our > enemy then 100 else 0),
            obj_units := us1,
            obj_battle_record := obj_battle_record (armies w self) @
              [\<lparr>opponent = obj_civilization (armies w other), our_strength = our,
                enemy_strength = enemy, result = verdict_of our enemy\<rparr>]\<rparr>,
         other := (armies w other)
           \<lparr>obj_gold := obj_gold (armies w other)
               + (if our > enemy then 0 else if enemy > our then 100 else 0),
            obj_units := us2,
            obj_battle_record := obj_battle_record (armies w other) @
              [\<lparr>opponent = obj_civilization (armies w self), our_strength = enemy,
                enemy_strength = our, result = verdict_of enemy our\<rparr>]\<rparr>)"
    and H': "objects w' = (\<lambda>u. if u \<in> set us1 \<union> set us2
         then (objects w u)\<lparr>years_of_life := years_of_life (objects w u) + 1\<rparr>
         else objects w u)"
    unfolding our_def enemy_def k1_def k2_def by blast
  have m1: "map (objects w) us1 = remove_strongest_spec (nat k1) (units (abs_store w self))"
    using remove_strongest_units_obj_map [OF r1] by (simp add: abs_store_def abs_army_def)
  have m2: "map (objects w) us2 = remove_strongest_spec (nat k2) (units (abs_store w other))"
    using remove_strongest_units_obj_map [OF r2] by (simp add: abs_store_def abs_army_def)
  have a1: "map (objects w') us1 = map age_unit (map (objects w) us1)"
    unfolding H' by (simp add: age_unit_def)
  have a2: "map (objects w') us2 = map age_unit (map (objects w) us2)"
    unfolding H' by (simp add: age_unit_def)
  have t: "get_total_strength (abs_store w self) = our" "get_total_strength (abs_store w other) = enemy"
    by (simp_all add: abs_store_def get_total_strength_abs our_def enemy_def)
  have ne: "units (abs_store w self) \<noteq> []" "units (abs_store w other) \<noteq> []"
    using assms(2,3) by (simp_all add: abs_store_def abs_army_def)
  have mir: "mirrored (verdict_of our enemy) = verdict_of enemy our"
    by (simp add: mirrored_def verdict_of_def)
  define h' where "h' = (abs_store w)
     (self := abs_store w' self, other := abs_store w' other)"
  have s': "abs_store w' self = (abs_store w self)
       \<lparr>gold := gold (abs_store w self) + (if our > enemy then 100 else 0),
        units := map age_unit (remove_strongest_spec (nat k1) (units (abs_store w self))),
        battle_record := battle_record (abs_store w self) @
          [\<lparr>opponent = civilization (abs_store w other), our_strength = our,
            enemy_strength = enemy, result = verdict_of our enemy\<rparr>]\<rparr>"
    using assms(1) a1 m1 by (simp add: abs_store_def abs_army_def A')
  have o': "abs_store w' other = (abs_store w other)
       \<lparr>gold := gold (abs_store w other) + (if our > enemy then 0 else if enemy > our then 100 else 0),
        units := map age_unit (remove_strongest_spec (nat k2) (units (abs_store w other))),
        battle_record := battle_record (abs_store w other) @
          [\<lparr>opponent = civilization (abs_store w self), our_strength = enemy,
            enemy_strength = our, result = verdict_of enemy our\<rparr>]\<rparr>"
    using assms(1) a2 m2 by (simp add: abs_store_def abs_army_def A')
  have "attack self other (abs_store w) = Inr (verdict_of our enemy, h')"
    using assms(1) ne
    unfolding attack_def t h'_def s' o'
    by (simp add: battle_outcome_distinct Let_def age_all_units_def append_battle_def mir
        k1_def k2_def)
  moreover have "h' self = abs_store w' self" "h' other = abs_store w' other"
    using assms(1) by (simp_all add: h'_def)
  ultimately show ?thesis using att by blast
qed

text \<open>What \<open>attack_obj\<close> computes when an army attacks itself.\<close>

lemma attack_obj_self:
  assumes "obj_units (armies w self) \<noteq> []" "distinct (obj_units (armies w self))"
  shows "\<exists>us1 us2 w'.
      remove_strongest_units_obj (objects w) 1 (armies w self)
        = Inr ((armies w self)\<lparr>obj_units := us1\<rparr>) \<and>
      remove_strongest_units_obj (objects w) 1 ((armies w self)\<lparr>obj_units := us1\<rparr>)
        = Inr ((armies w self)\<lparr>obj_units := us2\<rparr>) \<and>
      attack_obj self self w = Inr (''draw'', w') \<and>
      obj_units (armies w' self) = us2 \<and>
      length (obj_battle_record (armies w' self))
        = length (obj_battle_record (armies w self)) + 2 \<and>
      objects w' = (\<lambda>u. if u \<in> set us2
         then (objects w u)\<lparr>years_of_life := years_of_life (objects w u) + 2\<rparr>
         else objects w u)"
proof -
  define A H where "A = armies w" and "H = objects w"
  define our where "our = get_total_strength_obj H (A self)"
  from remove_strongest_units_obj_total [of H 1 "A self"] obtain us1 where
    r1: "remove_strongest_units_obj H 1 (A self) = Inr ((A self)\<lparr>obj_units := us1\<rparr>)"
    and d1: "distinct us1"
    using assms(2) unfolding A_def by blast
  from remove_strongest_units_obj_total [of H 1 "(A self)\<lparr>obj_units := us1\<rparr>"] obtain us2 where
    r2: "remove_strongest_units_obj H 1 ((A self)\<lparr>obj_units := us1\<rparr>)
           = Inr ((A self)\<lparr>obj_units := us2\<rparr>)"
    and d2: "distinct us2"
    using d1 by auto
  define A2 where "A2 = A(self := (A self)\<lparr>obj_units := us2\<rparr>)"
  have b: "battle_outcome_obj self self our our H A = Inr (''draw'', A2)"
    using r1 r2 by (simp add: battle_outcome_obj_def Let_def A2_def)
  have u2: "obj_units (A2 self) = us2" by (simp add: A2_def)
  define H3 where "H3 = age_all_units_obj (A2 self) H"
  define H4 where "H4 = age_all_units_obj (A2 self) H3"
  have H3: "H3 = (\<lambda>u. if u \<in> set us2 then (H u)\<lparr>years_of_life := years_of_life (H u) + 1\<rparr> else H u)"
    unfolding H3_def using age_all_units_obj_distinct [of "A2 self" H] d2 u2 by simp
  have H4': "H4 = (\<lambda>u. if u \<in> set us2 then (H3 u)\<lparr>years_of_life := years_of_life (H3 u) + 1\<rparr> else H3 u)"
    unfolding H4_def using age_all_units_obj_distinct [of "A2 self" H3] d2 u2 by simp
  have H4: "H4 = (\<lambda>u. if u \<in> set us2
      then (H u)\<lparr>years_of_life := years_of_life (H u) + 2\<rparr> else H u)"
    unfolding H4' H3 by (auto simp: fun_eq_iff)
  define A6 where "A6 = A2(self := (A2 self)\<lparr>obj_battle_record := obj_battle_record (A2 self) @
      [\<lparr>opponent = obj_civilization (A self), our_strength = our,
        enemy_strength = our, result = ''draw''\<rparr>,
       \<lparr>opponent = obj_civilization (A self), our_strength = our,
        enemy_strength = our, result = ''draw''\<rparr>]\<rparr>)"
  have att: "attack_obj self self w = Inr (''draw'', \<lparr>armies = A6, objects = H4\<rparr>)"
    using assms(1) b
    unfolding attack_obj_def A_def [symmetric] H_def [symmetric] our_def [symmetric]
    by (simp add: Let_def H3_def H4_def A6_def A2_def append_battle_obj_def mirrored_def)
  have "obj_units (A6 self) = us2"
    and "length (obj_battle_record (A6 self)) = length (obj_battle_record (A self)) + 2"
    by (simp_all add: A6_def A2_def)
  with r1 r2 att H4 show ?thesis
    unfolding A_def H_def
    by (intro exI [of _ us1] exI [of _ us2] exI [of _ "\<lparr>armies = A6, objects = H4\<rparr>"]) simp
qed

lemma two_worlds_abs:
  "abs_store two_worlds 0 = two_armies 0" "abs_store two_worlds 1 = two_armies 1"
  by code_simp+

lemma two_worlds_facts:
  "armies two_worlds 0 = chinese_obj" "armies two_worlds 1 = english_obj"
  "objects two_worlds = fresh_units"
  "obj_units chinese_obj = [0..<29]" "obj_units english_obj = [29..<59]"
  "armies two_worlds (Suc 0) = english_obj"
  by (simp_all add: two_worlds_def chinese_obj_def english_obj_def)

lemma two_worlds_nonempty:
  "obj_units (armies two_worlds 0) \<noteq> []" "obj_units (armies two_worlds 1) \<noteq> []"
  by (simp_all add: two_worlds_facts)

lemma two_worlds_exclusive:
  "exclusive_units 0 1 two_worlds" "exclusive_units 0 0 two_worlds"
  by (auto simp: exclusive_units_def two_worlds_facts)

lemma two_worlds_strength:
  "get_total_strength_obj fresh_units chinese_obj = 300"
  "get_total_strength_obj fresh_units english_obj = 350"
  by code_simp+

lemma two_worlds_removals:
  "remove_strongest_units_obj fresh_units 2 chinese_obj = Inr (chinese_obj\<lparr>obj_units := [0..<27]\<rparr>)"
  "remove_strongest_units_obj fresh_units 1 chinese_obj
     = Inr (chinese_obj\<lparr>obj_units := [0..<27] @ [28]\<rparr>)"
  "remove_strongest_units_obj fresh_units 1 (chinese_obj\<lparr>obj_units := [0..<27] @ [28]\<rparr>)
     = Inr (chinese_obj\<lparr>obj_units := [0..<27]\<rparr>)"
  by code_simp+

lemma obj_units_update_inject:
  "Inr (a\<lparr>obj_units := xs\<rparr>) = (Inr (a\<lparr>obj_units := ys\<rparr>) :: error + Army_obj) \<Longrightarrow> xs = ys"
proof -
  assume "Inr (a\<lparr>obj_units := xs\<rparr>) = (Inr (a\<lparr>obj_units := ys\<rparr>) :: error + Army_obj)"
  then have "obj_units (a\<lparr>obj_units := xs\<rparr>) = obj_units (a\<lparr>obj_units := ys\<rparr>)" by simp
  then show ?thesis by simp
qed

lemma attack_obj_example:
  "\<exists>w'. attack_obj 0 1 two_worlds = Inr (''defeat'', w') \<and>
        obj_units (armies w' 0) = [0..<27] \<and> obj_units (armies w' 1) = [29..<59] \<and>
        objects w' 0 = Pikeman\<lparr>years_of_life := 1\<rparr> \<and>
        objects w' 26 = Archer\<lparr>years_of_life := 1\<rparr> \<and>
        objects w' 27 = Knight \<and> objects w' 28 = Knight \<and>
        objects w' 29 = Pikeman\<lparr>years_of_life := 1\<rparr>"
proof -
  have d: "(0::nat) \<noteq> 1" by simp
  from attack_obj_distinct [OF d two_worlds_nonempty two_worlds_exclusive(1)]
  obtain us1 us2 w' where
    r1: "remove_strongest_units_obj fresh_units 2 chinese_obj = Inr (chinese_obj\<lparr>obj_units := us1\<rparr>)"
    and r2: "remove_strongest_units_obj fresh_units 0 english_obj = Inr (english_obj\<lparr>obj_units := us2\<rparr>)"
    and att: "attack_obj 0 1 two_worlds = Inr (''defeat'', w')"
    and A: "obj_units (armies w' 0) = us1" "obj_units (armies w' 1) = us2"
    and H: "objects w' = (\<lambda>u. if u \<in> set us1 \<union> set us2
         then (fresh_units u)\<lparr>years_of_life := years_of_life (fresh_units u) + 1\<rparr>
         else fresh_units u)"
    unfolding two_worlds_facts two_worlds_strength by (auto simp: verdict_of_def)
  have us1: "us1 = [0..<27]"
    using r1 unfolding two_worlds_removals(1) by (rule obj_units_update_inject [symmetric])
  have us2: "us2 = [29..<59]"
    using r2 unfolding remove_strongest_units_obj_zero two_worlds_facts
    by (rule obj_units_update_inject [symmetric])
  have f: "fresh_units 0 = Pikeman" "fresh_units 26 = Archer" "fresh_units 27 = Knight"
    "fresh_units 28 = Knight" "fresh_units 29 = Pikeman"
    by (simp_all add: fresh_units_def)
  have y: "years_of_life Pikeman = 0" "years_of_life Archer = 0"
    by (simp_all add: Pikeman_def Archer_def)
  have "objects w' 0 = Pikeman\<lparr>years_of_life := 1\<rparr>"
    "objects w' 26 = Archer\<lparr>years_of_life := 1\<rparr>"
    "objects w' 27 = Knight" "objects w' 28 = Knight"
    "objects w' 29 = Pikeman\<lparr>years_of_life := 1\<rparr>"
    unfolding H us1 us2 by (simp_all add: f y)
  with att A us1 us2 show ?thesis by blast
qed

text \<open>
  Claim C6, for an attack on a different army, every unit being owned by one army and
  held once. After the outcome has been applied, every unit left in either roster was
  there before the battle and has \<open>years_of_life\<close> exactly one more than before the
  battle, all its other attributes unchanged; every unit object that is in neither
  final roster, and so every unit removed in the battle, is exactly as it was before the
  battle: it is not aged.
\<close>

theorem attack_aging_distinct:
  assumes "self \<noteq> other"
    and "obj_units (armies w self) \<noteq> []" "obj_units (armies w other) \<noteq> []"
    and "exclusive_units self other w"
  shows "attack_aging_claim self other w"
proof -
  from attack_obj_distinct [OF assms] obtain us1 us2 w' res where
    s: "set us1 \<subseteq> set (obj_units (armies w self))" "set us2 \<subseteq> set (obj_units (armies w other))"
    and att: "attack_obj self other w = Inr (res, w')"
    and u: "obj_units (armies w' self) = us1" "obj_units (armies w' other) = us2"
    and H: "objects w' = (\<lambda>u. if u \<in> set us1 \<union> set us2
         then (objects w u)\<lparr>years_of_life := years_of_life (objects w u) + 1\<rparr>
         else objects w u)"
    using assms(1) by fastforce
  show ?thesis
    unfolding attack_aging_claim_def
    using att s u H by auto
qed

theorem attack_aging_distinct_witness:
  "(0::nat) \<noteq> 1 \<and> obj_units (armies two_worlds 0) \<noteq> [] \<and>
   obj_units (armies two_worlds 1) \<noteq> [] \<and> exclusive_units 0 1 two_worlds \<and>
   abs_store two_worlds 0 = two_armies 0 \<and> abs_store two_worlds 1 = two_armies 1 \<and>
   attack_aging_claim 0 1 two_worlds \<and>
   (\<exists>w'. attack_obj 0 1 two_worlds = Inr (''defeat'', w') \<and>
        obj_units (armies w' 0) = [0..<27] \<and> obj_units (armies w' 1) = [29..<59] \<and>
        objects w' 0 = Pikeman\<lparr>years_of_life := 1\<rparr> \<and>
        objects w' 26 = Archer\<lparr>years_of_life := 1\<rparr> \<and>
        objects w' 27 = Knight \<and> objects w' 28 = Knight \<and>
        objects w' 29 = Pikeman\<lparr>years_of_life := 1\<rparr>)"
proof -
  have d: "(0::nat) \<noteq> 1" by simp
  show ?thesis
    using d two_worlds_nonempty two_worlds_exclusive(1) two_worlds_abs attack_obj_example
      attack_aging_distinct [OF d two_worlds_nonempty two_worlds_exclusive(1)]
    by blast
qed

text \<open>
  An army that attacks itself is aged by both calls of \<open>_age_all_units\<close>: the unit
  object 0 of the Chinese army, a survivor, is two years older and not one.
\<close>

theorem attack_aging_self_counterexample:
  "obj_units (armies two_worlds 0) \<noteq> [] \<and> exclusive_units 0 0 two_worlds \<and>
   abs_store two_worlds 0 = two_armies 0 \<and>
   \<not> attack_aging_claim 0 0 two_worlds"
proof -
  have d: "distinct (obj_units (armies two_worlds 0))" by (simp add: two_worlds_facts)
  from attack_obj_self [OF two_worlds_nonempty(1) d] obtain us1 us2 w' where
    r1: "remove_strongest_units_obj fresh_units 1 chinese_obj = Inr (chinese_obj\<lparr>obj_units := us1\<rparr>)"
    and r2: "remove_strongest_units_obj fresh_units 1 (chinese_obj\<lparr>obj_units := us1\<rparr>)
        = Inr (chinese_obj\<lparr>obj_units := us2\<rparr>)"
    and att: "attack_obj 0 0 two_worlds = Inr (''draw'', w')"
    and u: "obj_units (armies w' 0) = us2"
    and H: "objects w' = (\<lambda>u. if u \<in> set us2
         then (fresh_units u)\<lparr>years_of_life := years_of_life (fresh_units u) + 2\<rparr>
         else fresh_units u)"
    unfolding two_worlds_facts by blast
  have us1: "us1 = [0..<27] @ [28]"
    using r1 unfolding two_worlds_removals(2) by (rule obj_units_update_inject [symmetric])
  have us2: "us2 = [0..<27]"
    using r2 unfolding us1 two_worlds_removals(3) by (rule obj_units_update_inject [symmetric])
  have y: "years_of_life (objects w' 0) = years_of_life (fresh_units 0) + 2"
    unfolding H us2 by simp
  have "\<not> attack_aging_claim 0 0 two_worlds"
  proof
    assume "attack_aging_claim 0 0 two_worlds"
    then obtain res v where
      a: "attack_obj 0 0 two_worlds = Inr (res, v)"
      and s: "\<forall>u \<in> set (obj_units (armies v 0)) \<union> set (obj_units (armies v 0)).
           objects v u = (objects two_worlds u)
             \<lparr>years_of_life := years_of_life (objects two_worlds u) + 1\<rparr>"
      unfolding attack_aging_claim_def by blast
    from a att have v: "v = w'" by simp
    have "0 \<in> set (obj_units (armies w' 0))" unfolding u us2 by simp
    with s have "objects w' 0 = (fresh_units 0)\<lparr>years_of_life := years_of_life (fresh_units 0) + 1\<rparr>"
      unfolding v two_worlds_facts by blast
    then have "years_of_life (objects w' 0) = years_of_life (fresh_units 0) + 1" by simp
    with y show False by simp
  qed
  with two_worlds_nonempty(1) two_worlds_exclusive(2) two_worlds_abs(1) show ?thesis by blast
qed

subsection \<open>History\<close>

text \<open>
  Claim C7, for an attack on a different army. Each army's history grows by exactly one
  entry at its end: the attacker's names the opponent, both strengths as they were before
  the battle and the outcome; the opponent's names the attacker, the same strengths
  swapped and the inverted outcome. Earlier entries stay as they were.
\<close>

theorem attack_history_distinct:
  assumes "self \<noteq> other" "units (h self) \<noteq> []" "units (h other) \<noteq> []"
  shows "attack_history_claim self other h"
  using assms
  by (simp add: attack_history_claim_def attack_def battle_outcome_distinct Let_def
      age_all_units_def append_battle_def verdict_of_def mirrored_def)

theorem attack_history_distinct_witness:
  "(0::nat) \<noteq> 1 \<and> units (two_armies 0) \<noteq> [] \<and> units (two_armies 1) \<noteq> [] \<and>
   attack_history_claim 0 1 two_armies"
proof -
  have d: "(0::nat) \<noteq> 1" by simp
  note n = two_armies_facts(1,2)
  show ?thesis
    using d n attack_history_distinct [OF d n(1) n(2)]
    by blast
qed

text \<open>
  An army that attacks itself receives both entries: its history grows by two.
\<close>

theorem attack_history_self_counterexample:
  "Army_init ''chinese'' = Inr (two_armies 0) \<and> units (two_armies 0) \<noteq> [] \<and>
   \<not> attack_history_claim 0 0 two_armies"
proof -
  have init: "Army_init ''chinese'' = Inr (two_armies 0)" by (rule two_armies_init(1))
  have ne: "units (two_armies 0) \<noteq> []" by (rule two_armies_facts(1))
  have "\<not> attack_history_claim 0 0 two_armies"
  proof
    assume "attack_history_claim 0 0 two_armies"
    then obtain res h' b where
      a: "attack 0 0 two_armies = Inr (res, h')" and
      u: "battle_record (h' 0) = battle_record (two_armies 0) @ [b]"
      unfolding attack_history_claim_def by (auto simp: Let_def)
    from u have "length (battle_record (h' 0)) = Suc (length (battle_record (two_armies 0)))"
      by simp
    moreover have "length (battle_record (h' 0)) = Suc (Suc (length (battle_record (two_armies 0))))"
      using attack_self_result(2) [OF ne a] by simp
    ultimately show False by simp
  qed
  with init ne show ?thesis by simp
qed

section \<open>Gold never goes negative\<close>

lemma train_unit_gold: "0 \<le> gold a \<Longrightarrow> 0 \<le> gold (snd (train_unit i a))"
  by (simp add: train_unit_def Let_def)

lemma transform_unit_gold: "0 \<le> gold a \<Longrightarrow> 0 \<le> gold (snd (transform_unit i t a))"
  by (simp add: transform_unit_def Let_def)

lemma attack_gold:
  assumes "\<forall>r. 0 \<le> gold (h r)"
  shows "\<exists>res h'. attack self other h = Inr (res, h') \<and> (\<forall>r. 0 \<le> gold (h' r))"
  using assms
  by (auto simp: attack_def battle_outcome_def remove_strongest_units_spec Let_def
      age_all_units_def append_battle_def)

lemma step_gold:
  assumes "\<forall>r. 0 \<le> gold (h r)"
  shows "\<exists>h'. step c h = Inr h' \<and> (\<forall>r. 0 \<le> gold (h' r))"
proof (cases c)
  case (Train r i)
  with assms show ?thesis by (simp add: train_unit_gold)
next
  case (Transform r i t)
  with assms show ?thesis by (simp add: transform_unit_gold)
next
  case (Attack r r')
  from attack_gold [OF assms, of r r'] obtain res h' where
    "attack r r' h = Inr (res, h')" "\<forall>r. 0 \<le> gold (h' r)" by blast
  with Attack show ?thesis by simp
qed

lemma run_gold:
  "\<forall>r. 0 \<le> gold (h r) \<Longrightarrow> \<exists>h'. run cs h = Inr h' \<and> (\<forall>r. 0 \<le> gold (h' r))"
proof (induction cs arbitrary: h)
  case Nil
  then show ?case by simp
next
  case (Cons c cs)
  from step_gold [OF Cons.prems, of c] obtain h1 where
    h1: "step c h = Inr h1" "\<forall>r. 0 \<le> gold (h1 r)" by blast
  from Cons.IH [OF h1(2)] h1(1) show ?case by simp
qed

lemma Army_init_gold: "Army_init name = Inr a \<Longrightarrow> gold a = 1000"
  by (auto simp: Army_init_def Let_def split: if_splits)

text \<open>
  Claim C10. Starting from armies that construction produced, every sequence of
  \<open>train_unit\<close>, \<open>transform_unit\<close> and \<open>attack\<close> calls runs to its end without an
  exception and leaves the gold of every army at 0 or more.
\<close>

theorem gold_never_negative:
  assumes "\<forall>r. \<exists>name. Army_init name = Inr (h r)"
  shows "\<exists>h'. run cs h = Inr h' \<and> (\<forall>r. 0 \<le> gold (h' r))"
proof -
  have "\<forall>r. 0 \<le> gold (h r)"
  proof
    fix r
    from assms obtain name where "Army_init name = Inr (h r)" by blast
    then show "0 \<le> gold (h r)" using Army_init_gold by fastforce
  qed
  then show ?thesis by (rule run_gold)
qed

theorem gold_never_negative_witness:
  "(\<forall>r. \<exists>name. Army_init name = Inr (two_armies r)) \<and>
   (\<exists>h'. run campaign two_armies = Inr h' \<and> (\<forall>r. 0 \<le> gold (h' r))) \<and>
   (\<exists>h'. run short_campaign two_armies = Inr h' \<and> (\<forall>r. 0 \<le> gold (h' r))) \<and>
   gold (projr (run short_campaign two_armies) 0) = 990 \<and>
   gold (projr (run short_campaign two_armies) 1) = 1070"
proof -
  have a: "\<forall>r. \<exists>name. Army_init name = Inr (two_armies r)"
  proof
    fix r
    show "\<exists>name. Army_init name = Inr (two_armies r)"
      using chinese_army_init english_army_init by (auto simp: two_armies_def)
  qed
  have b: "gold (projr (run short_campaign two_armies) 0) = 990"
    "gold (projr (run short_campaign two_armies) 1) = 1070"
    by code_simp+
  show ?thesis
    using a b gold_never_negative [OF a, of campaign]
      gold_never_negative [OF a, of short_campaign]
    by blast
qed

end
